theory Spec2Isabelle
  imports Main "HOL-Library.Word" "HOL-Library.AList"
begin

unbundle bit_operations_syntax

section \<open>Types.hpp\<close>

text \<open>
  \<^verbatim>\<open>using Entity = std::uint32_t;\<close>,
  \<^verbatim>\<open>using ComponentTypeID = std::uint8_t;\<close>,
  \<^verbatim>\<open>using Signature = std::bitset<MAX_COMPONENTS>;\<close> with \<^verbatim>\<open>MAX_COMPONENTS = 64\<close>.
  The entity capacity \<^verbatim>\<open>MAX_ENTITIES\<close> is a compile-time constant (5000 in the
  repository); every operation that reads it takes it as its first argument \<open>N\<close>, so that
  other instantiations of the constant can be examined as well.
\<close>

type_synonym Entity = "32 word"
type_synonym ComponentTypeID = "8 word"
type_synonym Signature = "64 word"

definition MAX_ENTITIES :: Entity where
  "MAX_ENTITIES = 5000"

definition MAX_COMPONENTS :: ComponentTypeID where
  "MAX_COMPONENTS = 64"

text \<open>
  What a call can end with instead of a result: the two \<^verbatim>\<open>std::runtime_error\<close>s thrown by
  the entity manager, \<^verbatim>\<open>std::out_of_range\<close> (thrown by \<^verbatim>\<open>unordered_map::at\<close>,
  \<^verbatim>\<open>bitset::set\<close> and \<^verbatim>\<open>bitset::test\<close>), and undefined behaviour (indexing the
  signature array out of range, \<^verbatim>\<open>front()\<close> on an empty queue, dereferencing a null
  storage pointer), after which nothing is known about the program.
\<close>

datatype error = TooManyEntities | NoEntitiesToDestroy | OutOfRange | UndefinedBehaviour

text \<open>\<^verbatim>\<open>bitset::set(pos, val)\<close> and \<^verbatim>\<open>bitset::test(pos)\<close> check the position.\<close>

definition bitset_set :: "Signature \<Rightarrow> ComponentTypeID \<Rightarrow> bool \<Rightarrow> error + Signature" where
  "bitset_set sig pos val =
     (if pos < MAX_COMPONENTS
      then Inr (if val then set_bit (unat pos) sig else unset_bit (unat pos) sig)
      else Inl OutOfRange)"

definition bitset_test :: "Signature \<Rightarrow> ComponentTypeID \<Rightarrow> error + bool" where
  "bitset_test sig pos =
     (if pos < MAX_COMPONENTS then Inr (bit sig (unat pos)) else Inl OutOfRange)"

section \<open>EntityManager.hpp\<close>

text \<open>
  \<^verbatim>\<open>std::queue<Entity> availableEntities\<close> is a list whose head is the front of the queue,
  \<^verbatim>\<open>std::array<Signature, MAX_ENTITIES> signatures\<close> a function on indices, read and
  written only below the capacity (the model tests the index at each access, which the
  source does not: there an index out of range is undefined behaviour),
  \<^verbatim>\<open>std::uint32_t livingEntityCount\<close> a 32-bit word. The field \<^verbatim>\<open>signatures\<close> is
  \<open>em_signatures\<close> here and \<open>sm_signatures\<close> in the system manager, since two records
  cannot share a field name.
\<close>

record EntityManager =
  availableEntities :: "Entity list"
  em_signatures :: "Entity \<Rightarrow> Signature"
  livingEntityCount :: "32 word"

text \<open>
  The constructor's loop
  \<^verbatim>\<open>for (Entity entity = 0; entity < MAX_ENTITIES; ++entity) availableEntities.push(entity);\<close>
\<close>

function fill_available :: "Entity \<Rightarrow> Entity \<Rightarrow> Entity list \<Rightarrow> Entity list" where
  "fill_available entity N q =
     (if entity < N then fill_available (entity + 1) N (q @ [entity]) else q)"
  by pat_completeness auto
termination
proof (relation "measure (\<lambda>(entity, N, q). unat N - unat entity)")
  show "wf (measure (\<lambda>(entity, N, q). unat N - unat entity))"
    by simp
next
  fix entity N :: Entity and q :: "Entity list"
  assume less: "entity < N"
  then have "unat (entity + 1) = Suc (unat entity)"
  proof -
    have "unat entity < unat N"
      using less by (simp add: word_less_nat_alt)
    moreover have "unat N < 2 ^ 32"
      using unsigned_less [of N, where 'a = nat] by simp
    ultimately have "unat entity + 1 < 2 ^ 32"
      by simp
    then show ?thesis
      by (simp add: unat_word_ariths)
  qed
  moreover from less have "unat entity < unat N"
    by (simp add: word_less_nat_alt)
  ultimately show "((entity + 1, N, q @ [entity]), (entity, N, q))
      \<in> measure (\<lambda>(entity, N, q). unat N - unat entity)"
    by simp
qed

declare fill_available.simps [simp del]

definition EntityManager_init :: "Entity \<Rightarrow> EntityManager" where
  "EntityManager_init N =
     \<lparr>availableEntities = fill_available 0 N [],
      em_signatures = (\<lambda>_. 0),
      livingEntityCount = 0\<rparr>"

definition EntityManager_createEntity ::
  "Entity \<Rightarrow> EntityManager \<Rightarrow> error + (Entity \<times> EntityManager)" where
  "EntityManager_createEntity N em =
     (if livingEntityCount em \<ge> N then Inl TooManyEntities
      else (case availableEntities em of
              [] \<Rightarrow> Inl UndefinedBehaviour
            | ident # rest \<Rightarrow>
                Inr (ident, em\<lparr>availableEntities := rest,
                               livingEntityCount := livingEntityCount em + 1\<rparr>)))"

definition EntityManager_destroyEntity ::
  "Entity \<Rightarrow> EntityManager \<Rightarrow> Entity \<Rightarrow> error + EntityManager" where
  "EntityManager_destroyEntity N em entity =
     (if \<not> entity < N then Inl UndefinedBehaviour
      else if em_signatures em entity = 0 then Inr em
      else if livingEntityCount em \<le> 0 then Inl NoEntitiesToDestroy
      else Inr (em\<lparr>em_signatures := (em_signatures em)(entity := 0),
                    availableEntities := availableEntities em @ [entity],
                    livingEntityCount := livingEntityCount em - 1\<rparr>))"

definition EntityManager_entityExists :: "Entity \<Rightarrow> EntityManager \<Rightarrow> Entity \<Rightarrow> bool" where
  "EntityManager_entityExists N em entity \<longleftrightarrow> entity < N \<and> em_signatures em entity \<noteq> 0"

definition EntityManager_setSignature ::
  "Entity \<Rightarrow> EntityManager \<Rightarrow> Entity \<Rightarrow> Signature \<Rightarrow> error + EntityManager" where
  "EntityManager_setSignature N em entity signature =
     (if entity < N then Inr (em\<lparr>em_signatures := (em_signatures em)(entity := signature)\<rparr>)
      else Inl UndefinedBehaviour)"

definition EntityManager_getSignature ::
  "Entity \<Rightarrow> EntityManager \<Rightarrow> Entity \<Rightarrow> error + Signature" where
  "EntityManager_getSignature N em entity =
     (if entity < N then Inr (em_signatures em entity) else Inl UndefinedBehaviour)"

text \<open>
  Sequences of calls on one entity manager. A call that throws leaves the manager as it
  was (both \<^verbatim>\<open>throw\<close> statements come before any assignment), the caller catches the
  exception and goes on: the trace records it as \<open>EmRaised\<close>. Undefined behaviour ends
  the run. \<open>EmCreated e\<close> records that \<^verbatim>\<open>createEntity\<close> returned \<open>e\<close>, \<open>EmDestroyed e\<close>
  that \<^verbatim>\<open>destroyEntity(e)\<close> returned (whether or not it gave the identifier back),
  \<open>EmSignatureSet e\<close> that \<^verbatim>\<open>setSignature(e, _)\<close> returned.
\<close>

datatype em_op = EmCreate | EmDestroy Entity | EmSetSignature Entity Signature

datatype em_event = EmCreated Entity | EmDestroyed Entity | EmSignatureSet Entity | EmRaised error

definition em_step ::
  "Entity \<Rightarrow> EntityManager \<Rightarrow> em_op \<Rightarrow> error + (em_event \<times> EntityManager)" where
  "em_step N em op =
     (case op of
        EmCreate \<Rightarrow>
          (case EntityManager_createEntity N em of
             Inr (ident, em') \<Rightarrow> Inr (EmCreated ident, em')
           | Inl UndefinedBehaviour \<Rightarrow> Inl UndefinedBehaviour
           | Inl err \<Rightarrow> Inr (EmRaised err, em))
      | EmDestroy entity \<Rightarrow>
          (case EntityManager_destroyEntity N em entity of
             Inr em' \<Rightarrow> Inr (EmDestroyed entity, em')
           | Inl UndefinedBehaviour \<Rightarrow> Inl UndefinedBehaviour
           | Inl err \<Rightarrow> Inr (EmRaised err, em))
      | EmSetSignature entity signature \<Rightarrow>
          (case EntityManager_setSignature N em entity signature of
             Inr em' \<Rightarrow> Inr (EmSignatureSet entity, em')
           | Inl err \<Rightarrow> Inl err))"

fun em_run ::
  "Entity \<Rightarrow> EntityManager \<Rightarrow> em_op list \<Rightarrow> error + (em_event list \<times> EntityManager)" where
  "em_run N em [] = Inr ([], em)"
| "em_run N em (op # ops) =
     (case em_step N em op of
        Inl err \<Rightarrow> Inl err
      | Inr (ev, em') \<Rightarrow>
          (case em_run N em' ops of
             Inl err \<Rightarrow> Inl err
           | Inr (evs, em'') \<Rightarrow> Inr (ev # evs, em'')))"

text \<open>The events of a run on a freshly constructed manager.\<close>

definition em_trace :: "Entity \<Rightarrow> em_op list \<Rightarrow> error + em_event list" where
  "em_trace N ops = map_sum id fst (em_run N (EntityManager_init N) ops)"

text \<open>
  Reading a trace: \<open>held\<close> is the list of identifiers handed out by \<open>createEntity\<close>
  and not passed to \<open>destroyEntity\<close> since. \<open>no_shared_ids\<close> says that no
  \<open>createEntity\<close> returns an identifier that is still held; \<open>signatures_on_held\<close> says
  that \<open>setSignature\<close> is only ever called on a held identifier (the discipline of a
  caller that gives components to entities it has created and not destroyed).
\<close>

fun no_shared_ids :: "Entity list \<Rightarrow> em_event list \<Rightarrow> bool" where
  "no_shared_ids held [] = True"
| "no_shared_ids held (EmCreated e # evs) = (e \<notin> set held \<and> no_shared_ids (e # held) evs)"
| "no_shared_ids held (EmDestroyed e # evs) = no_shared_ids (removeAll e held) evs"
| "no_shared_ids held (EmSignatureSet e # evs) = no_shared_ids held evs"
| "no_shared_ids held (EmRaised err # evs) = no_shared_ids held evs"

fun signatures_on_held :: "Entity list \<Rightarrow> em_event list \<Rightarrow> bool" where
  "signatures_on_held held [] = True"
| "signatures_on_held held (EmCreated e # evs) = signatures_on_held (e # held) evs"
| "signatures_on_held held (EmDestroyed e # evs) = signatures_on_held (removeAll e held) evs"
| "signatures_on_held held (EmSignatureSet e # evs) = (e \<in> set held \<and> signatures_on_held held evs)"
| "signatures_on_held held (EmRaised err # evs) = signatures_on_held held evs"

fun is_setSignature :: "em_op \<Rightarrow> bool" where
  "is_setSignature (EmSetSignature e s) = True"
| "is_setSignature _ = False"

text \<open>
  The manager after \<open>k\<close> calls of \<open>createEntity\<close> on a fresh one, when no signature
  has been set: the identifiers \<open>k, \<dots>, N - 1\<close> are still in the queue.
\<close>

definition pool_state :: "Entity \<Rightarrow> nat \<Rightarrow> EntityManager" where
  "pool_state N k =
     \<lparr>availableEntities = map of_nat [k..<unat N],
      em_signatures = (\<lambda>_. 0),
      livingEntityCount = of_nat k\<rparr>"

text \<open>
  The invariant behind identifier uniqueness, for a list \<open>held\<close> of identifiers in use:
  the queue has no duplicates, holds no identifier in use, and holds no identifier whose
  signature is non-empty.
\<close>

definition em_inv :: "Entity list \<Rightarrow> EntityManager \<Rightarrow> bool" where
  "em_inv held em \<longleftrightarrow>
     distinct (availableEntities em) \<and>
     set held \<inter> set (availableEntities em) = {} \<and>
     (\<forall>e. em_signatures em e \<noteq> 0 \<longrightarrow> e \<notin> set (availableEntities em))"

section \<open>Containers of the standard library\<close>

text \<open>
  \<^verbatim>\<open>std::unordered_map\<close>. A map that is only looked up by key is a partial function;
  a map that the code iterates over is an association list with one entry per key (the
  iteration order of the real container is unspecified; the list fixes one order, and no
  result below depends on it).

  \<^verbatim>\<open>insert\<close> and \<^verbatim>\<open>emplace\<close> add the pair only if the key is absent.
  \<^verbatim>\<open>operator[]\<close> returns the mapped value, inserting a value-initialised one (zero for
  an integer or a bitset) if the key is absent.
\<close>

definition umap_insert :: "'k \<Rightarrow> 'a \<Rightarrow> ('k \<rightharpoonup> 'a) \<Rightarrow> ('k \<rightharpoonup> 'a)" where
  "umap_insert k v m = (case m k of None \<Rightarrow> m(k \<mapsto> v) | Some _ \<Rightarrow> m)"

definition umap_index :: "('k \<rightharpoonup> 'a::zero) \<Rightarrow> 'k \<Rightarrow> 'a \<times> ('k \<rightharpoonup> 'a)" where
  "umap_index m k = (case m k of None \<Rightarrow> (0, m(k \<mapsto> 0)) | Some v \<Rightarrow> (v, m))"

definition alist_insert :: "'k \<Rightarrow> 'a \<Rightarrow> ('k \<times> 'a) list \<Rightarrow> ('k \<times> 'a) list" where
  "alist_insert k v al = (case map_of al k of None \<Rightarrow> al @ [(k, v)] | Some _ \<Rightarrow> al)"

section \<open>ComponentStorage.hpp\<close>

text \<open>
  \<^verbatim>\<open>ComponentStorage<T>\<close> holds one \<^verbatim>\<open>std::unordered_map<Entity, T> componentMap\<close>.
  The component values of all types live in one type \<open>'v\<close>.
\<close>

type_synonym 'v ComponentStorage = "Entity \<rightharpoonup> 'v"

definition ComponentStorage_insertData ::
  "'v ComponentStorage \<Rightarrow> Entity \<Rightarrow> 'v \<Rightarrow> 'v ComponentStorage" where
  "ComponentStorage_insertData componentMap entity component =
     umap_insert entity component componentMap"

definition ComponentStorage_removeData ::
  "'v ComponentStorage \<Rightarrow> Entity \<Rightarrow> 'v ComponentStorage" where
  "ComponentStorage_removeData componentMap entity = componentMap(entity := None)"

definition ComponentStorage_getData :: "'v ComponentStorage \<Rightarrow> Entity \<Rightarrow> error + 'v" where
  "ComponentStorage_getData componentMap entity =
     (case componentMap entity of None \<Rightarrow> Inl OutOfRange | Some component \<Rightarrow> Inr component)"

definition ComponentStorage_hasData :: "'v ComponentStorage \<Rightarrow> Entity \<Rightarrow> bool" where
  "ComponentStorage_hasData componentMap entity \<longleftrightarrow> componentMap entity \<noteq> None"

definition ComponentStorage_entityDestroyed ::
  "'v ComponentStorage \<Rightarrow> Entity \<Rightarrow> 'v ComponentStorage" where
  "ComponentStorage_entityDestroyed componentMap entity = componentMap(entity := None)"

section \<open>ComponentManager.hpp\<close>

text \<open>
  Component types (\<^verbatim>\<open>std::type_index\<close>) are the values of a type \<open>'t\<close>.
  \<^verbatim>\<open>ComponentStorages\<close> maps a type to a shared pointer to its storage; the private
  \<^verbatim>\<open>GetComponentStorage<T>()\<close> reads it with \<^verbatim>\<open>operator[]\<close>, which for a type that
  was never registered yields a null pointer that the caller dereferences at once:
  undefined behaviour.
\<close>

record ('t, 'v) ComponentManager =
  componentTypes :: "'t \<rightharpoonup> ComponentTypeID"
  ComponentStorages :: "('t \<times> 'v ComponentStorage) list"
  nextComponentType :: ComponentTypeID

definition ComponentManager_init :: "('t, 'v) ComponentManager" where
  "ComponentManager_init =
     \<lparr>componentTypes = Map.empty, ComponentStorages = [], nextComponentType = 0\<rparr>"

definition ComponentManager_registerComponent ::
  "('t, 'v) ComponentManager \<Rightarrow> 't \<Rightarrow> ('t, 'v) ComponentManager" where
  "ComponentManager_registerComponent cm typeName =
     cm\<lparr>componentTypes := umap_insert typeName (nextComponentType cm) (componentTypes cm),
        ComponentStorages := alist_insert typeName Map.empty (ComponentStorages cm),
        nextComponentType := nextComponentType cm + 1\<rparr>"

definition ComponentManager_getComponentTypeID ::
  "('t, 'v) ComponentManager \<Rightarrow> 't \<Rightarrow> ComponentTypeID \<times> ('t, 'v) ComponentManager" where
  "ComponentManager_getComponentTypeID cm typeName =
     (case umap_index (componentTypes cm) typeName of
        (ident, types') \<Rightarrow> (ident, cm\<lparr>componentTypes := types'\<rparr>))"

definition ComponentManager_addComponent ::
  "('t, 'v) ComponentManager \<Rightarrow> 't \<Rightarrow> Entity \<Rightarrow> 'v \<Rightarrow> error + ('t, 'v) ComponentManager" where
  "ComponentManager_addComponent cm typeName entity component =
     (case map_of (ComponentStorages cm) typeName of
        None \<Rightarrow> Inl UndefinedBehaviour
      | Some storage \<Rightarrow>
          Inr (cm\<lparr>ComponentStorages :=
                 AList.update typeName (ComponentStorage_insertData storage entity component)
                   (ComponentStorages cm)\<rparr>))"

definition ComponentManager_removeComponent ::
  "('t, 'v) ComponentManager \<Rightarrow> 't \<Rightarrow> Entity \<Rightarrow> error + ('t, 'v) ComponentManager" where
  "ComponentManager_removeComponent cm typeName entity =
     (case map_of (ComponentStorages cm) typeName of
        None \<Rightarrow> Inl UndefinedBehaviour
      | Some storage \<Rightarrow>
          Inr (cm\<lparr>ComponentStorages :=
                 AList.update typeName (ComponentStorage_removeData storage entity)
                   (ComponentStorages cm)\<rparr>))"

definition ComponentManager_getComponent ::
  "('t, 'v) ComponentManager \<Rightarrow> 't \<Rightarrow> Entity \<Rightarrow> error + 'v" where
  "ComponentManager_getComponent cm typeName entity =
     (case map_of (ComponentStorages cm) typeName of
        None \<Rightarrow> Inl UndefinedBehaviour
      | Some storage \<Rightarrow> ComponentStorage_getData storage entity)"

text \<open>The loop over \<^verbatim>\<open>ComponentStorages\<close> calls \<^verbatim>\<open>entityDestroyed\<close> on each storage.\<close>

definition ComponentManager_entityDestroyed ::
  "('t, 'v) ComponentManager \<Rightarrow> Entity \<Rightarrow> ('t, 'v) ComponentManager" where
  "ComponentManager_entityDestroyed cm entity =
     cm\<lparr>ComponentStorages :=
          map (\<lambda>(typeName, component). (typeName, ComponentStorage_entityDestroyed component entity))
            (ComponentStorages cm)\<rparr>"

text \<open>Sequences of calls on one component manager; undefined behaviour ends the run.\<close>

datatype ('t, 'v) cm_op =
    CmRegisterComponent 't
  | CmGetComponentTypeID 't
  | CmAddComponent 't Entity 'v
  | CmRemoveComponent 't Entity
  | CmEntityDestroyed Entity

definition cm_step ::
  "('t, 'v) ComponentManager \<Rightarrow> ('t, 'v) cm_op \<Rightarrow> error + ('t, 'v) ComponentManager" where
  "cm_step cm op =
     (case op of
        CmRegisterComponent t \<Rightarrow> Inr (ComponentManager_registerComponent cm t)
      | CmGetComponentTypeID t \<Rightarrow> Inr (snd (ComponentManager_getComponentTypeID cm t))
      | CmAddComponent t entity component \<Rightarrow> ComponentManager_addComponent cm t entity component
      | CmRemoveComponent t entity \<Rightarrow> ComponentManager_removeComponent cm t entity
      | CmEntityDestroyed entity \<Rightarrow> Inr (ComponentManager_entityDestroyed cm entity))"

fun cm_run ::
  "('t, 'v) ComponentManager \<Rightarrow> ('t, 'v) cm_op list \<Rightarrow> error + ('t, 'v) ComponentManager" where
  "cm_run cm [] = Inr cm"
| "cm_run cm (op # ops) =
     (case cm_step cm op of Inl err \<Rightarrow> Inl err | Inr cm' \<Rightarrow> cm_run cm' ops)"

fun is_register :: "('t, 'v) cm_op \<Rightarrow> bool" where
  "is_register (CmRegisterComponent t) = True"
| "is_register _ = False"

text \<open>The component type of the first \<^verbatim>\<open>registerComponent\<close> call of a run, if there is one.\<close>

fun first_registered :: "('t, 'v) cm_op list \<Rightarrow> 't option" where
  "first_registered [] = None"
| "first_registered (CmRegisterComponent t # ops) = Some t"
| "first_registered (_ # ops) = first_registered ops"

section \<open>System.hpp and SystemManager.hpp\<close>

text \<open>
  Of a \<^verbatim>\<open>System\<close> the managers touch only \<^verbatim>\<open>std::set<Entity> entities\<close> (the timing
  fields are floating point and belong to the application). System types are the values of
  a type \<open>'t\<close>; \<^verbatim>\<open>systems\<close> is iterated over, \<^verbatim>\<open>signatures\<close> is only looked up.
  \<^verbatim>\<open>registerSystem\<close> returns a handle to the system it constructed; the model keeps the
  system that the map holds for the type, which is the one the manager updates.
\<close>

record System =
  entities :: "Entity set"

record 't SystemManager =
  sm_signatures :: "'t \<rightharpoonup> Signature"
  systems :: "('t \<times> System) list"

definition SystemManager_init :: "'t SystemManager" where
  "SystemManager_init = \<lparr>sm_signatures = Map.empty, systems = []\<rparr>"

definition SystemManager_registerSystem :: "'t SystemManager \<Rightarrow> 't \<Rightarrow> 't SystemManager" where
  "SystemManager_registerSystem sm typeName =
     sm\<lparr>systems := alist_insert typeName \<lparr>entities = {}\<rparr> (systems sm)\<rparr>"

definition SystemManager_getSystem :: "'t SystemManager \<Rightarrow> 't \<Rightarrow> error + System" where
  "SystemManager_getSystem sm typeName =
     (case map_of (systems sm) typeName of None \<Rightarrow> Inl OutOfRange | Some system \<Rightarrow> Inr system)"

definition SystemManager_setSignature ::
  "'t SystemManager \<Rightarrow> 't \<Rightarrow> Signature \<Rightarrow> 't SystemManager" where
  "SystemManager_setSignature sm typeName signature =
     sm\<lparr>sm_signatures := umap_insert typeName signature (sm_signatures sm)\<rparr>"

definition SystemManager_entityDestroyed :: "'t SystemManager \<Rightarrow> Entity \<Rightarrow> 't SystemManager" where
  "SystemManager_entityDestroyed sm entity =
     sm\<lparr>systems :=
          map (\<lambda>(typeName, system). (typeName, system\<lparr>entities := entities system - {entity}\<rparr>))
            (systems sm)\<rparr>"

text \<open>
  The loop of \<^verbatim>\<open>entitySignatureChanged\<close> over the systems; \<^verbatim>\<open>signatures[type]\<close> may
  insert into the signature map, which is therefore passed along.
\<close>

fun signature_changed_loop ::
  "Entity \<Rightarrow> Signature \<Rightarrow> ('t \<times> System) list \<Rightarrow> ('t \<rightharpoonup> Signature)
     \<Rightarrow> ('t \<times> System) list \<times> ('t \<rightharpoonup> Signature)" where
  "signature_changed_loop entity entitySignature [] sigs = ([], sigs)"
| "signature_changed_loop entity entitySignature ((type, system) # rest) sigs =
     (case umap_index sigs type of
        (systemSignature, sigs') \<Rightarrow>
          (case signature_changed_loop entity entitySignature rest sigs' of
             (rest', sigs'') \<Rightarrow>
               ((type,
                 if entitySignature AND systemSignature = systemSignature
                 then system\<lparr>entities := insert entity (entities system)\<rparr>
                 else system\<lparr>entities := entities system - {entity}\<rparr>) # rest',
                sigs'')))"

definition SystemManager_entitySignatureChanged ::
  "'t SystemManager \<Rightarrow> Entity \<Rightarrow> Signature \<Rightarrow> 't SystemManager" where
  "SystemManager_entitySignatureChanged sm entity entitySignature =
     (case signature_changed_loop entity entitySignature (systems sm) (sm_signatures sm) of
        (systems', sigs') \<Rightarrow> sm\<lparr>systems := systems', sm_signatures := sigs'\<rparr>)"

text \<open>Sequences of calls on one system manager (none of them can fail).\<close>

datatype 't sm_op =
    SmRegisterSystem 't
  | SmSetSignature 't Signature
  | SmEntityDestroyed Entity
  | SmEntitySignatureChanged Entity Signature

fun sm_step :: "'t SystemManager \<Rightarrow> 't sm_op \<Rightarrow> 't SystemManager" where
  "sm_step sm (SmRegisterSystem t) = SystemManager_registerSystem sm t"
| "sm_step sm (SmSetSignature t signature) = SystemManager_setSignature sm t signature"
| "sm_step sm (SmEntityDestroyed entity) = SystemManager_entityDestroyed sm entity"
| "sm_step sm (SmEntitySignatureChanged entity signature) =
     SystemManager_entitySignatureChanged sm entity signature"

definition sm_run :: "'t SystemManager \<Rightarrow> 't sm_op list \<Rightarrow> 't SystemManager" where
  "sm_run sm ops = foldl sm_step sm ops"

text \<open>
  The required signature of a system type: the value that \<^verbatim>\<open>signatures[type]\<close> reads in
  \<^verbatim>\<open>entitySignatureChanged\<close>, which is the empty signature when the map has no entry.
\<close>

definition required_signature :: "'t SystemManager \<Rightarrow> 't \<Rightarrow> Signature" where
  "required_signature sm t = fst (umap_index (sm_signatures sm) t)"

fun sets_signature_of :: "'t \<Rightarrow> 't sm_op \<Rightarrow> bool" where
  "sets_signature_of t (SmSetSignature t' signature) = (t' = t)"
| "sets_signature_of t _ = False"

section \<open>Coordinator.hpp\<close>

text \<open>
  The coordinator owns the three managers; \<^verbatim>\<open>init()\<close> constructs them. A method
  either holds the one mutex for its whole body or (the registrations, \<^verbatim>\<open>getSystem\<close>)
  forwards a single call; calls are taken one after the other, each as one step on the
  three managers. A call that ends in an exception or in undefined behaviour yields
  \<open>Inl\<close>, and what it had changed until then is not kept.
\<close>

record ('t, 'v) Coordinator =
  componentManager :: "('t, 'v) ComponentManager"
  entityManager :: EntityManager
  systemManager :: "'t SystemManager"

definition Coordinator_init :: "Entity \<Rightarrow> ('t, 'v) Coordinator" where
  "Coordinator_init N =
     \<lparr>componentManager = ComponentManager_init,
      entityManager = EntityManager_init N,
      systemManager = SystemManager_init\<rparr>"

definition Coordinator_createEntity ::
  "Entity \<Rightarrow> ('t, 'v) Coordinator \<Rightarrow> error + (Entity \<times> ('t, 'v) Coordinator)" where
  "Coordinator_createEntity N c =
     (case EntityManager_createEntity N (entityManager c) of
        Inl err \<Rightarrow> Inl err
      | Inr (ident, em') \<Rightarrow> Inr (ident, c\<lparr>entityManager := em'\<rparr>))"

definition Coordinator_entityExists :: "Entity \<Rightarrow> ('t, 'v) Coordinator \<Rightarrow> Entity \<Rightarrow> bool" where
  "Coordinator_entityExists N c entity = EntityManager_entityExists N (entityManager c) entity"

definition Coordinator_destroyEntity ::
  "Entity \<Rightarrow> ('t, 'v) Coordinator \<Rightarrow> Entity \<Rightarrow> error + ('t, 'v) Coordinator" where
  "Coordinator_destroyEntity N c entity =
     (case EntityManager_destroyEntity N (entityManager c) entity of
        Inl err \<Rightarrow> Inl err
      | Inr em' \<Rightarrow>
          Inr (c\<lparr>entityManager := em',
                 componentManager := ComponentManager_entityDestroyed (componentManager c) entity,
                 systemManager := SystemManager_entityDestroyed (systemManager c) entity\<rparr>))"

definition Coordinator_registerComponent :: "('t, 'v) Coordinator \<Rightarrow> 't \<Rightarrow> ('t, 'v) Coordinator" where
  "Coordinator_registerComponent c t =
     c\<lparr>componentManager := ComponentManager_registerComponent (componentManager c) t\<rparr>"

definition Coordinator_registerSystem :: "('t, 'v) Coordinator \<Rightarrow> 't \<Rightarrow> ('t, 'v) Coordinator" where
  "Coordinator_registerSystem c t =
     c\<lparr>systemManager := SystemManager_registerSystem (systemManager c) t\<rparr>"

definition Coordinator_getSystem :: "('t, 'v) Coordinator \<Rightarrow> 't \<Rightarrow> error + System" where
  "Coordinator_getSystem c t = SystemManager_getSystem (systemManager c) t"

definition Coordinator_addComponent ::
  "Entity \<Rightarrow> ('t, 'v) Coordinator \<Rightarrow> 't \<Rightarrow> Entity \<Rightarrow> 'v \<Rightarrow> error + ('t, 'v) Coordinator" where
  "Coordinator_addComponent N c t entity component =
     (case ComponentManager_addComponent (componentManager c) t entity component of
        Inl err \<Rightarrow> Inl err
      | Inr cm1 \<Rightarrow>
     (case EntityManager_getSignature N (entityManager c) entity of
        Inl err \<Rightarrow> Inl err
      | Inr signature \<Rightarrow>
     (case ComponentManager_getComponentTypeID cm1 t of
        (ident, cm2) \<Rightarrow>
     (case bitset_set signature ident True of
        Inl err \<Rightarrow> Inl err
      | Inr signature' \<Rightarrow>
     (case EntityManager_setSignature N (entityManager c) entity signature' of
        Inl err \<Rightarrow> Inl err
      | Inr em' \<Rightarrow>
          Inr (c\<lparr>componentManager := cm2,
                 entityManager := em',
                 systemManager :=
                   SystemManager_entitySignatureChanged (systemManager c) entity signature'\<rparr>))))))"

definition Coordinator_removeComponent ::
  "Entity \<Rightarrow> ('t, 'v) Coordinator \<Rightarrow> 't \<Rightarrow> Entity \<Rightarrow> error + ('t, 'v) Coordinator" where
  "Coordinator_removeComponent N c t entity =
     (case ComponentManager_removeComponent (componentManager c) t entity of
        Inl err \<Rightarrow> Inl err
      | Inr cm1 \<Rightarrow>
     (case EntityManager_getSignature N (entityManager c) entity of
        Inl err \<Rightarrow> Inl err
      | Inr signature \<Rightarrow>
     (case ComponentManager_getComponentTypeID cm1 t of
        (ident, cm2) \<Rightarrow>
     (case bitset_set signature ident False of
        Inl err \<Rightarrow> Inl err
      | Inr signature' \<Rightarrow>
     (case EntityManager_setSignature N (entityManager c) entity signature' of
        Inl err \<Rightarrow> Inl err
      | Inr em' \<Rightarrow>
          Inr (c\<lparr>componentManager := cm2,
                 entityManager := em',
                 systemManager :=
                   SystemManager_entitySignatureChanged (systemManager c) entity signature'\<rparr>))))))"

definition Coordinator_getComponent :: "('t, 'v) Coordinator \<Rightarrow> 't \<Rightarrow> Entity \<Rightarrow> error + 'v" where
  "Coordinator_getComponent c t entity = ComponentManager_getComponent (componentManager c) t entity"

definition Coordinator_getComponentTypeID ::
  "('t, 'v) Coordinator \<Rightarrow> 't \<Rightarrow> ComponentTypeID \<times> ('t, 'v) Coordinator" where
  "Coordinator_getComponentTypeID c t =
     (case ComponentManager_getComponentTypeID (componentManager c) t of
        (ident, cm') \<Rightarrow> (ident, c\<lparr>componentManager := cm'\<rparr>))"

definition Coordinator_hasComponent ::
  "Entity \<Rightarrow> ('t, 'v) Coordinator \<Rightarrow> 't \<Rightarrow> Entity \<Rightarrow> error + (bool \<times> ('t, 'v) Coordinator)" where
  "Coordinator_hasComponent N c t entity =
     (case EntityManager_getSignature N (entityManager c) entity of
        Inl err \<Rightarrow> Inl err
      | Inr signature \<Rightarrow>
     (case ComponentManager_getComponentTypeID (componentManager c) t of
        (compTypeID, cm') \<Rightarrow>
     (case bitset_test signature compTypeID of
        Inl err \<Rightarrow> Inl err
      | Inr b \<Rightarrow> Inr (b, c\<lparr>componentManager := cm'\<rparr>))))"

definition Coordinator_getEntitySignature ::
  "Entity \<Rightarrow> ('t, 'v) Coordinator \<Rightarrow> Entity \<Rightarrow> error + Signature" where
  "Coordinator_getEntitySignature N c entity = EntityManager_getSignature N (entityManager c) entity"

definition Coordinator_setSystemSignature ::
  "('t, 'v) Coordinator \<Rightarrow> 't \<Rightarrow> Signature \<Rightarrow> ('t, 'v) Coordinator" where
  "Coordinator_setSystemSignature c t signature =
     c\<lparr>systemManager := SystemManager_setSignature (systemManager c) t signature\<rparr>"

text \<open>Sequences of calls on a coordinator; the run ends at the first call that fails.\<close>

datatype ('t, 'v) co_op =
    CoCreateEntity
  | CoDestroyEntity Entity
  | CoRegisterComponent 't
  | CoRegisterSystem 't
  | CoSetSystemSignature 't Signature
  | CoAddComponent 't Entity 'v
  | CoRemoveComponent 't Entity
  | CoGetComponentTypeID 't

definition co_step ::
  "Entity \<Rightarrow> ('t, 'v) Coordinator \<Rightarrow> ('t, 'v) co_op \<Rightarrow> error + ('t, 'v) Coordinator" where
  "co_step N c op =
     (case op of
        CoCreateEntity \<Rightarrow> map_sum id snd (Coordinator_createEntity N c)
      | CoDestroyEntity entity \<Rightarrow> Coordinator_destroyEntity N c entity
      | CoRegisterComponent t \<Rightarrow> Inr (Coordinator_registerComponent c t)
      | CoRegisterSystem t \<Rightarrow> Inr (Coordinator_registerSystem c t)
      | CoSetSystemSignature t signature \<Rightarrow> Inr (Coordinator_setSystemSignature c t signature)
      | CoAddComponent t entity component \<Rightarrow> Coordinator_addComponent N c t entity component
      | CoRemoveComponent t entity \<Rightarrow> Coordinator_removeComponent N c t entity
      | CoGetComponentTypeID t \<Rightarrow> Inr (snd (Coordinator_getComponentTypeID c t)))"

fun co_run ::
  "Entity \<Rightarrow> ('t, 'v) Coordinator \<Rightarrow> ('t, 'v) co_op list \<Rightarrow> error + ('t, 'v) Coordinator" where
  "co_run N c [] = Inr c"
| "co_run N c (op # ops) =
     (case co_step N c op of Inl err \<Rightarrow> Inl err | Inr c' \<Rightarrow> co_run N c' ops)"

text \<open>A run on a fresh coordinator, followed by one query.\<close>

definition co_run_then_getComponent ::
  "Entity \<Rightarrow> ('t, 'v) co_op list \<Rightarrow> 't \<Rightarrow> Entity \<Rightarrow> error + 'v" where
  "co_run_then_getComponent N ops t entity =
     (case co_run N (Coordinator_init N) ops of
        Inl err \<Rightarrow> Inl err
      | Inr c \<Rightarrow> Coordinator_getComponent c t entity)"

definition co_run_then_getSystem ::
  "Entity \<Rightarrow> ('t, 'v) co_op list \<Rightarrow> 't \<Rightarrow> error + System" where
  "co_run_then_getSystem N ops t =
     (case co_run N (Coordinator_init N) ops of
        Inl err \<Rightarrow> Inl err
      | Inr c \<Rightarrow> Coordinator_getSystem c t)"

text \<open>
  The signature that \<^verbatim>\<open>addComponent<T>(e, _)\<close> writes for \<open>e\<close>: the old one with the bit
  of \<open>T\<close>'s identifier set.
\<close>

definition new_signature :: "('t, 'v) Coordinator \<Rightarrow> 't \<Rightarrow> Entity \<Rightarrow> Signature" where
  "new_signature c T e =
     set_bit (unat (fst (umap_index (componentTypes (componentManager c)) T)))
       (em_signatures (entityManager c) e)"

text \<open>
  A small world for the concrete instances: capacity 2, one component type, one system
  without a declared signature, entity 0 created and given a \<open>Position\<close> of value 1.
  \<open>example_world_destroyed\<close> is that world after \<^verbatim>\<open>destroyEntity(0)\<close>.
\<close>

definition example_ops :: "(string, nat) co_op list" where
  "example_ops =
     [CoRegisterComponent ''Position'', CoRegisterSystem ''Physics'', CoCreateEntity,
      CoAddComponent ''Position'' 0 1]"

definition example_world :: "(string, nat) Coordinator" where
  "example_world =
     \<lparr>componentManager =
        \<lparr>componentTypes = [''Position'' \<mapsto> 0],
         ComponentStorages = [(''Position'', [0 \<mapsto> 1])],
         nextComponentType = 1\<rparr>,
      entityManager =
        \<lparr>availableEntities = [1],
         em_signatures = (\<lambda>_. 0)(0 := 1),
         livingEntityCount = 1\<rparr>,
      systemManager =
        \<lparr>sm_signatures = [''Physics'' \<mapsto> 0],
         systems = [(''Physics'', \<lparr>entities = {0}\<rparr>)]\<rparr>\<rparr>"

definition example_world_destroyed :: "(string, nat) Coordinator" where
  "example_world_destroyed =
     \<lparr>componentManager =
        \<lparr>componentTypes = [''Position'' \<mapsto> 0],
         ComponentStorages = [(''Position'', Map.empty)],
         nextComponentType = 1\<rparr>,
      entityManager =
        \<lparr>availableEntities = [1, 0],
         em_signatures = (\<lambda>_. 0),
         livingEntityCount = 0\<rparr>,
      systemManager =
        \<lparr>sm_signatures = [''Physics'' \<mapsto> 0],
         systems = [(''Physics'', \<lparr>entities = {}\<rparr>)]\<rparr>\<rparr>"

section \<open>The entity manager: filling the pool, recycling, uniqueness of identifiers\<close>

lemma unat_succ_below: "(entity :: 32 word) < N \<Longrightarrow> unat (entity + 1) = Suc (unat entity)"
proof -
  assume less: "entity < N"
  then have "Suc (unat entity) \<le> unat N"
    by (simp add: word_less_nat_alt)
  then have "unat (of_nat (Suc (unat entity)) :: 32 word) = Suc (unat entity)"
    by (rule le_unat_uoi)
  then show ?thesis
    by (simp add: add.commute)
qed

lemma fill_available_eq:
  "fill_available entity N q = q @ map of_nat [unat entity..<unat N]"
proof (induction entity N q rule: fill_available.induct)
  case (1 entity N q)
  show ?case
  proof (cases "entity < N")
    case True
    then have lt: "unat entity < unat N"
      by (simp add: word_less_nat_alt)
    have "fill_available entity N q = fill_available (entity + 1) N (q @ [entity])"
      using True by (simp add: fill_available.simps [of entity])
    also have "\<dots> = (q @ [entity]) @ map of_nat [unat (entity + 1)..<unat N]"
      using "1.IH" [OF True] .
    also have "\<dots> = q @ map of_nat [unat entity..<unat N]"
      using lt by (simp add: unat_succ_below [OF True] upt_conv_Cons)
    finally show ?thesis .
  next
    case False
    then have "unat N \<le> unat entity"
      by (simp add: word_less_nat_alt)
    then show ?thesis
      using False by (simp add: fill_available.simps [of entity])
  qed
qed

lemma em_run_append:
  "em_run N em (xs @ ys) =
     (case em_run N em xs of
        Inl err \<Rightarrow> Inl err
      | Inr (evs, em') \<Rightarrow>
          (case em_run N em' ys of
             Inl err \<Rightarrow> Inl err
           | Inr (evs', em'') \<Rightarrow> Inr (evs @ evs', em'')))"
  by (induction xs arbitrary: em) (auto split: sum.splits prod.splits)

lemma create_pool_state:
  assumes "k < unat N"
  shows "EntityManager_createEntity N (pool_state N k) = Inr (of_nat k, pool_state N (Suc k))"
proof -
  have "unat (of_nat k :: 32 word) = k"
    using assms by (intro le_unat_uoi [of k N]) simp
  then have "\<not> N \<le> (of_nat k :: 32 word)"
    using assms by (simp add: word_le_nat_alt)
  then show ?thesis
    using assms by (simp add: EntityManager_createEntity_def pool_state_def upt_conv_Cons)
qed

lemma run_creates:
  "k + j \<le> unat N \<Longrightarrow>
   em_run N (pool_state N k) (replicate j EmCreate) =
     Inr (map EmCreated (map of_nat [k..<k + j]), pool_state N (k + j))"
proof (induction j arbitrary: k)
  case 0
  then show ?case by simp
next
  case (Suc j)
  then have k: "k < unat N" and rest: "Suc k + j \<le> unat N" by simp_all
  have upt: "[k..<k + Suc j] = k # [Suc k..<Suc k + j]"
    by (simp add: upt_conv_Cons)
  have step: "em_step N (pool_state N k) EmCreate = Inr (EmCreated (of_nat k), pool_state N (Suc k))"
    by (simp add: em_step_def create_pool_state [OF k])
  show ?case
    unfolding upt using Suc.IH [OF rest] step by simp
qed

lemma init_pool_state: "EntityManager_init N = pool_state N 0"
  by (simp add: EntityManager_init_def pool_state_def fill_available_eq)

lemma of_nat_inj_on_upt: "inj_on (of_nat :: nat \<Rightarrow> 32 word) {k..<unat (N :: 32 word)}"
proof (rule inj_onI)
  fix x y assume "x \<in> {k..<unat N}" "y \<in> {k..<unat N}" and eq: "(of_nat x :: 32 word) = of_nat y"
  then have "x \<le> unat N" "y \<le> unat N"
    by simp_all
  then have "unat (of_nat x :: 32 word) = x" "unat (of_nat y :: 32 word) = y"
    by (simp_all add: le_unat_uoi [of _ N])
  with eq show "x = y" by metis
qed

lemma em_inv_init: "em_inv [] (EntityManager_init N)"
  by (simp add: init_pool_state pool_state_def em_inv_def distinct_map of_nat_inj_on_upt)

lemma step_created:
  assumes "em_step N em op = Inr (EmCreated e, em1)" and "em_inv held em"
  shows "e \<notin> set held \<and> em_inv (e # held) em1"
proof -
  from assms(1) obtain rest where q: "availableEntities em = e # rest"
    and em1: "em1 = em\<lparr>availableEntities := rest, livingEntityCount := livingEntityCount em + 1\<rparr>"
    by (auto simp: em_step_def EntityManager_createEntity_def EntityManager_destroyEntity_def
        EntityManager_setSignature_def
        split: em_op.splits sum.splits error.splits if_splits list.splits)
  from assms(2) q show ?thesis
    by (auto simp: em_inv_def em1)
qed

lemma step_destroyed:
  assumes "em_step N em op = Inr (EmDestroyed e, em1)" and "em_inv held em"
  shows "em_inv (removeAll e held) em1"
proof -
  from assms(1) have "em1 = em \<or>
      (em_signatures em e \<noteq> 0 \<and>
       em1 = em\<lparr>em_signatures := (em_signatures em)(e := 0),
                availableEntities := availableEntities em @ [e],
                livingEntityCount := livingEntityCount em - 1\<rparr>)"
    by (auto simp: em_step_def EntityManager_createEntity_def EntityManager_destroyEntity_def
        EntityManager_setSignature_def
        split: em_op.splits sum.splits error.splits if_splits list.splits)
  then show ?thesis
  proof
    assume "em1 = em"
    with assms(2) show ?thesis by (auto simp: em_inv_def)
  next
    assume "em_signatures em e \<noteq> 0 \<and>
       em1 = em\<lparr>em_signatures := (em_signatures em)(e := 0),
                availableEntities := availableEntities em @ [e],
                livingEntityCount := livingEntityCount em - 1\<rparr>"
    with assms(2) show ?thesis by (auto simp: em_inv_def)
  qed
qed

lemma step_signature_set:
  assumes "em_step N em op = Inr (EmSignatureSet e, em1)" and "em_inv held em" and "e \<in> set held"
  shows "em_inv held em1"
proof -
  from assms(1) obtain s where "em1 = em\<lparr>em_signatures := (em_signatures em)(e := s)\<rparr>"
    by (auto simp: em_step_def EntityManager_createEntity_def EntityManager_destroyEntity_def
        EntityManager_setSignature_def
        split: em_op.splits sum.splits error.splits if_splits list.splits)
  with assms(2,3) show ?thesis by (auto simp: em_inv_def)
qed

lemma step_raised:
  assumes "em_step N em op = Inr (EmRaised err, em1)"
  shows "em1 = em"
  using assms
  by (auto simp: em_step_def EntityManager_createEntity_def EntityManager_destroyEntity_def
        EntityManager_setSignature_def
        split: em_op.splits sum.splits error.splits if_splits list.splits)

lemma run_no_shared_ids:
  "em_inv held em \<Longrightarrow> em_run N em ops = Inr (evs, em') \<Longrightarrow> signatures_on_held held evs
     \<Longrightarrow> no_shared_ids held evs"
proof (induction ops arbitrary: held em evs)
  case Nil
  then show ?case by simp
next
  case (Cons op ops)
  from Cons.prems(2) obtain ev em1 evs1 where
    step: "em_step N em op = Inr (ev, em1)" and
    run: "em_run N em1 ops = Inr (evs1, em')" and
    evs: "evs = ev # evs1"
    by (auto split: sum.splits prod.splits)
  show ?case
  proof (cases ev)
    case (EmCreated e)
    with step Cons.prems(1) have "e \<notin> set held" "em_inv (e # held) em1"
      using step_created by blast+
    moreover have "signatures_on_held (e # held) evs1"
      using Cons.prems(3) evs EmCreated by simp
    ultimately show ?thesis
      using Cons.IH [OF _ run] evs EmCreated by simp
  next
    case (EmDestroyed e)
    with step Cons.prems(1) have "em_inv (removeAll e held) em1"
      using step_destroyed by blast
    moreover have "signatures_on_held (removeAll e held) evs1"
      using Cons.prems(3) evs EmDestroyed by simp
    ultimately show ?thesis
      using Cons.IH [OF _ run] evs EmDestroyed by simp
  next
    case (EmSignatureSet e)
    have "e \<in> set held" "signatures_on_held held evs1"
      using Cons.prems(3) evs EmSignatureSet by simp_all
    moreover from this step Cons.prems(1) EmSignatureSet have "em_inv held em1"
      using step_signature_set by blast
    ultimately show ?thesis
      using Cons.IH [OF _ run] evs EmSignatureSet by simp
  next
    case (EmRaised err)
    with step have "em1 = em"
      using step_raised by blast
    moreover have "signatures_on_held held evs1"
      using Cons.prems(3) evs EmRaised by simp
    ultimately show ?thesis
      using Cons.IH [OF Cons.prems(1), of evs1] run evs EmRaised by simp
  qed
qed


text \<open>A run without \<open>setSignature\<close> calls keeps the discipline, whatever it destroys.\<close>

lemma step_without_setSignature:
  assumes "em_step N em op = Inr (ev, em')" and "\<not> is_setSignature op"
  shows "\<forall>e. ev \<noteq> EmSignatureSet e"
  using assms
  by (cases op) (auto simp: em_step_def split: sum.splits error.splits prod.splits)

lemma run_without_setSignature:
  "em_run N em ops = Inr (evs, em') \<Longrightarrow> \<not> list_ex is_setSignature ops \<Longrightarrow>
     signatures_on_held held evs"
proof (induction ops arbitrary: em evs held)
  case Nil
  then show ?case by simp
next
  case (Cons op ops)
  from Cons.prems(1) obtain ev em1 evs1 where
    step: "em_step N em op = Inr (ev, em1)" and
    run: "em_run N em1 ops = Inr (evs1, em')" and
    evs: "evs = ev # evs1"
    by (auto split: sum.splits prod.splits)
  from Cons.prems(2) have op: "\<not> is_setSignature op"
    and rest: "\<not> list_ex is_setSignature ops"
    by simp_all
  have "\<forall>e. ev \<noteq> EmSignatureSet e"
    using step op by (rule step_without_setSignature)
  then show ?case
    using Cons.IH [OF run rest] evs by (cases ev) simp_all
qed

lemma pool_state_full:
  "pool_state N (unat N) = \<lparr>availableEntities = [], em_signatures = (\<lambda>_. 0), livingEntityCount = N\<rparr>"
  by (simp add: pool_state_def)

lemma run_fill:
  "em_run N (EntityManager_init N) (replicate (unat N) EmCreate) =
     Inr (map EmCreated (map of_nat [0..<unat N]), pool_state N (unat N))"
  using run_creates [of 0 "unat N" N] by (simp add: init_pool_state)

lemma run_full_create:
  "em_run N (pool_state N (unat N)) [EmCreate] =
     Inr ([EmRaised TooManyEntities], pool_state N (unat N))"
  by (simp add: pool_state_full em_step_def EntityManager_createEntity_def)

lemma not_le_pred: "(N :: 32 word) \<noteq> 0 \<Longrightarrow> \<not> N \<le> N - 1"
proof -
  assume nz: "N \<noteq> 0"
  then have "unat (N - 1) = unat N - 1"
    by (simp add: unat_minus_one)
  moreover from nz have "0 < unat N"
    by (simp add: unat_gt_0)
  ultimately show ?thesis
    by (simp add: word_le_nat_alt)
qed

lemma run_recycle:
  assumes "e < N" and "s \<noteq> 0"
  shows "em_run N (pool_state N (unat N)) [EmCreate, EmSetSignature e s, EmDestroy e, EmCreate] =
     Inr ([EmRaised TooManyEntities, EmSignatureSet e, EmDestroyed e, EmCreated e],
          \<lparr>availableEntities = [], em_signatures = (\<lambda>_. 0), livingEntityCount = N\<rparr>)"
proof -
  from assms(1) have nz: "N \<noteq> 0" by auto
  have fun_eq: "((\<lambda>_. 0)(e := 0)) = (\<lambda>_. 0 :: Signature)" by auto
  show ?thesis
    using assms nz not_le_pred [OF nz]
    by (simp add: fun_eq pool_state_full em_step_def EntityManager_createEntity_def
        EntityManager_setSignature_def EntityManager_destroyEntity_def)
qed

lemma run_noop_destroy:
  assumes "e < N"
  shows "em_run N (pool_state N (unat N)) [EmCreate, EmDestroy e, EmCreate] =
     Inr ([EmRaised TooManyEntities, EmDestroyed e, EmRaised TooManyEntities],
          pool_state N (unat N))"
  using assms
  by (simp add: pool_state_full em_step_def EntityManager_createEntity_def
      EntityManager_destroyEntity_def)


section \<open>Claims about the entity manager\<close>

text \<open>
  Claim C1, as the code has it. On a fresh manager of capacity \<open>N\<close> the first \<open>N\<close> calls
  of \<open>createEntity\<close> return \<open>0, \<dots>, N - 1\<close> and the next one throws the capacity error.
  After that, \<open>destroyEntity e\<close> of a created entity whose signature is still empty returns
  at its first test without giving the identifier back, and the following \<open>createEntity\<close>
  throws the capacity error again. If the signature of \<open>e\<close> has been set to a non-empty value,
  \<open>destroyEntity e\<close> gives the identifier back and the following \<open>createEntity\<close> succeeds
  and returns \<open>e\<close>.
\<close>

theorem pool_exhaustion_and_recycling:
  "em_trace N (replicate (unat N) EmCreate @ [EmCreate]) =
     Inr (map EmCreated (map of_nat [0..<unat N]) @ [EmRaised TooManyEntities]) \<and>
   (e < N \<longrightarrow>
      em_trace N (replicate (unat N) EmCreate @ [EmCreate, EmDestroy e, EmCreate]) =
        Inr (map EmCreated (map of_nat [0..<unat N]) @
             [EmRaised TooManyEntities, EmDestroyed e, EmRaised TooManyEntities])) \<and>
   (e < N \<and> s \<noteq> 0 \<longrightarrow>
      em_trace N (replicate (unat N) EmCreate @
                  [EmCreate, EmSetSignature e s, EmDestroy e, EmCreate]) =
        Inr (map EmCreated (map of_nat [0..<unat N]) @
             [EmRaised TooManyEntities, EmSignatureSet e, EmDestroyed e, EmCreated e]))"
  by (simp add: em_trace_def em_run_append run_fill run_full_create run_recycle
      run_noop_destroy del: em_run.simps)

theorem pool_exhaustion_and_recycling_witness:
  "em_trace 2 [EmCreate, EmCreate, EmCreate] =
     Inr [EmCreated 0, EmCreated 1, EmRaised TooManyEntities] \<and>
   (0 :: Entity) < 2 \<and>
   em_trace 2 [EmCreate, EmCreate, EmCreate, EmDestroy 0, EmCreate] =
     Inr [EmCreated 0, EmCreated 1, EmRaised TooManyEntities,
          EmDestroyed 0, EmRaised TooManyEntities] \<and>
   (1 :: Signature) \<noteq> 0 \<and>
   em_trace 2 [EmCreate, EmCreate, EmCreate, EmSetSignature 0 1, EmDestroy 0, EmCreate] =
     Inr [EmCreated 0, EmCreated 1, EmRaised TooManyEntities,
          EmSignatureSet 0, EmDestroyed 0, EmCreated 0]"
proof -
  have cap: "unat (2 :: Entity) = 2"
    by simp
  have ops: "replicate 2 EmCreate = [EmCreate, EmCreate]"
    by (simp add: numeral_2_eq_2)
  have ids: "map EmCreated (map of_nat [0..<2]) = [EmCreated 0, EmCreated 1]"
    by (simp add: numeral_2_eq_2)
  show ?thesis
    using pool_exhaustion_and_recycling [of 2 0 1] unfolding cap ops ids by simp
qed

text \<open>
  The scenario of claim C1 at capacity 2: two entities are created, the third
  \<open>createEntity\<close> throws, \<open>destroyEntity 0\<close> returns, and the \<open>createEntity\<close> after
  it throws the capacity error instead of returning \<open>0\<close>.
\<close>

theorem destroy_of_empty_signature_frees_nothing:
  "em_trace 2 [EmCreate, EmCreate, EmCreate, EmDestroy 0, EmCreate] =
     Inr [EmCreated 0, EmCreated 1, EmRaised TooManyEntities,
          EmDestroyed 0, EmRaised TooManyEntities] \<and>
   em_trace 2 [EmCreate, EmCreate, EmCreate, EmDestroy 0, EmCreate] \<noteq>
     Inr [EmCreated 0, EmCreated 1, EmRaised TooManyEntities,
          EmDestroyed 0, EmCreated 0]"
proof -
  have "em_trace 2 [EmCreate, EmCreate, EmCreate, EmDestroy 0, EmCreate] =
     Inr [EmCreated 0, EmCreated 1, EmRaised TooManyEntities,
          EmDestroyed 0, EmRaised TooManyEntities]"
    by code_simp
  then show ?thesis
    by simp
qed

text \<open>
  Claim C5. In every run on a fresh manager in which \<open>setSignature\<close> is only called on
  identifiers that \<open>createEntity\<close> has returned and that have not been passed to
  \<open>destroyEntity\<close> since (a run of \<open>createEntity\<close> and \<open>destroyEntity\<close> calls alone is
  such a run, by \<open>run_without_setSignature\<close>), no \<open>createEntity\<close> returns an identifier
  that an earlier \<open>createEntity\<close> returned, unless \<open>destroyEntity\<close> was called on it in
  between. Calls that throw (the capacity error among them) change nothing and are part of
  the run.
\<close>

theorem live_identifiers_are_unique:
  assumes "em_trace N ops = Inr evs" and "signatures_on_held [] evs"
  shows "no_shared_ids [] evs"
proof -
  from assms(1) obtain em' where "em_run N (EntityManager_init N) ops = Inr (evs, em')"
    by (cases "em_run N (EntityManager_init N) ops") (auto simp: em_trace_def)
  then show ?thesis
    using run_no_shared_ids [OF em_inv_init] assms(2) by blast
qed

theorem live_identifiers_are_unique_witness:
  "em_trace 2 [EmCreate, EmSetSignature 0 1, EmDestroy 0, EmCreate, EmCreate, EmCreate] =
     Inr [EmCreated 0, EmSignatureSet 0, EmDestroyed 0, EmCreated 1, EmCreated 0,
          EmRaised TooManyEntities] \<and>
   signatures_on_held []
     [EmCreated 0, EmSignatureSet 0, EmDestroyed 0, EmCreated 1, EmCreated 0,
      EmRaised TooManyEntities] \<and>
   no_shared_ids []
     [EmCreated 0, EmSignatureSet 0, EmDestroyed 0, EmCreated 1, EmCreated 0,
      EmRaised TooManyEntities]"
proof -
  have run: "em_trace 2 [EmCreate, EmSetSignature 0 1, EmDestroy 0, EmCreate, EmCreate, EmCreate] =
     Inr [EmCreated 0, EmSignatureSet 0, EmDestroyed 0, EmCreated 1, EmCreated 0,
          EmRaised TooManyEntities]"
    by code_simp
  have held: "signatures_on_held []
     [EmCreated 0, EmSignatureSet 0, EmDestroyed 0, EmCreated 1, EmCreated 0,
      EmRaised TooManyEntities]"
    by simp
  show ?thesis
    using live_identifiers_are_unique [OF run held] run held by simp
qed

section \<open>The system manager: membership after a signature change\<close>

lemma umap_index_again:
  "fst (umap_index (snd (umap_index m k)) t) = fst (umap_index m t)"
  by (simp add: umap_index_def split: option.splits)

lemma umap_index_kept:
  "m t = Some v \<Longrightarrow> snd (umap_index m k) t = Some v"
  by (auto simp: umap_index_def split: option.splits)

text \<open>The loop never changes what \<^verbatim>\<open>signatures[t]\<close> reads, and never changes an entry.\<close>

lemma loop_reads_kept:
  "fst (umap_index (snd (signature_changed_loop e s syss sigs)) t) = fst (umap_index sigs t)"
proof (induction syss arbitrary: sigs)
  case Nil
  then show ?case by simp
next
  case (Cons p syss)
  obtain type system where p: "p = (type, system)" by (cases p)
  show ?case
    using Cons.IH [of "snd (umap_index sigs type)"]
    by (simp add: p umap_index_again split_beta)
qed

lemma loop_entries_kept:
  "sigs t = Some v \<Longrightarrow> snd (signature_changed_loop e s syss sigs) t = Some v"
proof (induction syss arbitrary: sigs)
  case Nil
  then show ?case by simp
next
  case (Cons p syss)
  obtain type system where p: "p = (type, system)" by (cases p)
  have "snd (umap_index sigs type) t = Some v"
    using Cons.prems by (rule umap_index_kept)
  then show ?case
    using Cons.IH [of "snd (umap_index sigs type)"]
    by (simp add: p split_beta)
qed

lemma loop_map_of:
  "map_of (fst (signature_changed_loop e s syss sigs)) t =
     map_option
       (\<lambda>system. if s AND fst (umap_index sigs t) = fst (umap_index sigs t)
                 then system\<lparr>entities := insert e (entities system)\<rparr>
                 else system\<lparr>entities := entities system - {e}\<rparr>)
       (map_of syss t)"
proof (induction syss arbitrary: sigs)
  case Nil
  then show ?case by simp
next
  case (Cons p syss)
  obtain type system where p: "p = (type, system)" by (cases p)
  show ?case
    using Cons.IH [of "snd (umap_index sigs type)"]
    by (simp add: p umap_index_again split_beta)
qed

lemma getSystem_after_change:
  "SystemManager_getSystem (SystemManager_entitySignatureChanged sm e s) t =
     map_sum id
       (\<lambda>system. if s AND required_signature sm t = required_signature sm t
                 then system\<lparr>entities := insert e (entities system)\<rparr>
                 else system\<lparr>entities := entities system - {e}\<rparr>)
       (SystemManager_getSystem sm t)"
  using loop_map_of [of e s "systems sm" "sm_signatures sm" t]
  by (simp add: SystemManager_getSystem_def SystemManager_entitySignatureChanged_def
      required_signature_def split_beta split: option.splits)

lemma required_signature_init: "required_signature SystemManager_init t = 0"
  by (simp add: required_signature_def SystemManager_init_def umap_index_def)

lemma step_required_signature:
  "\<not> sets_signature_of t op \<Longrightarrow> required_signature (sm_step sm op) t = required_signature sm t"
proof (cases op)
  case (SmRegisterSystem t')
  then show ?thesis
    by (simp add: required_signature_def SystemManager_registerSystem_def)
next
  case (SmSetSignature t' signature)
  assume "\<not> sets_signature_of t op"
  with SmSetSignature have "t' \<noteq> t" by simp
  then show ?thesis
    using SmSetSignature
    by (simp add: required_signature_def SystemManager_setSignature_def umap_insert_def
        umap_index_def split: option.splits)
next
  case (SmEntityDestroyed entity)
  then show ?thesis
    by (simp add: required_signature_def SystemManager_entityDestroyed_def)
next
  case (SmEntitySignatureChanged entity signature)
  then show ?thesis
    using loop_reads_kept [of entity signature "systems sm" "sm_signatures sm" t]
    by (simp add: required_signature_def SystemManager_entitySignatureChanged_def split_beta)
qed

lemma run_required_signature:
  "\<forall>op \<in> set ops. \<not> sets_signature_of t op \<Longrightarrow>
     required_signature (sm_run sm ops) t = required_signature sm t"
  unfolding sm_run_def
  by (induction ops arbitrary: sm) (simp_all add: step_required_signature)

lemma step_entry_kept:
  "sm_signatures sm t = Some v \<Longrightarrow> sm_signatures (sm_step sm op) t = Some v"
proof (cases op)
  case (SmRegisterSystem t')
  assume "sm_signatures sm t = Some v"
  then show ?thesis
    using SmRegisterSystem by (simp add: SystemManager_registerSystem_def)
next
  case (SmSetSignature t' signature)
  assume "sm_signatures sm t = Some v"
  then show ?thesis
    using SmSetSignature
    by (auto simp: SystemManager_setSignature_def umap_insert_def split: option.splits)
next
  case (SmEntityDestroyed entity)
  assume "sm_signatures sm t = Some v"
  then show ?thesis
    using SmEntityDestroyed by (simp add: SystemManager_entityDestroyed_def)
next
  case (SmEntitySignatureChanged entity signature)
  assume "sm_signatures sm t = Some v"
  then show ?thesis
    using SmEntitySignatureChanged
      loop_entries_kept [of "sm_signatures sm" t v entity signature "systems sm"]
    by (simp add: SystemManager_entitySignatureChanged_def split_beta)
qed

lemma run_entry_kept:
  "sm_signatures sm t = Some v \<Longrightarrow> sm_signatures (sm_run sm ops) t = Some v"
  unfolding sm_run_def
  by (induction ops arbitrary: sm) (simp_all add: step_entry_kept)

lemma setSignature_entry:
  "sm_signatures (SystemManager_setSignature sm t s1) t =
     Some (case sm_signatures sm t of None \<Rightarrow> s1 | Some s0 \<Rightarrow> s0)"
  by (simp add: SystemManager_setSignature_def umap_insert_def split: option.splits)

section \<open>Claims about the system manager\<close>

text \<open>
  Claim C3. For a registered system type \<open>S\<close> (one that \<open>getSystem\<close> finds), after
  \<open>entitySignatureChanged e s\<close> the entity \<open>e\<close> is in the entity set of \<open>S\<close> if and only if
  \<open>s AND sigS = sigS\<close>, where \<open>sigS\<close> is the required signature of \<open>S\<close>: \<open>e\<close> is inserted on a
  match and erased otherwise. The test asks for a superset of the required bits, not for
  equality.
\<close>

theorem signature_change_decides_membership:
  assumes "SystemManager_getSystem sm S = Inr system"
  shows "SystemManager_getSystem (SystemManager_entitySignatureChanged sm e s) S =
           Inr (if s AND required_signature sm S = required_signature sm S
                then system\<lparr>entities := insert e (entities system)\<rparr>
                else system\<lparr>entities := entities system - {e}\<rparr>) \<and>
         (\<forall>system'.
            SystemManager_getSystem (SystemManager_entitySignatureChanged sm e s) S = Inr system'
            \<longrightarrow> (e \<in> entities system' \<longleftrightarrow>
                   s AND required_signature sm S = required_signature sm S))"
  using assms by (auto simp: getSystem_after_change)

theorem signature_change_decides_membership_witness:
  "SystemManager_getSystem
     \<lparr>sm_signatures = [''Physics'' \<mapsto> 1], systems = [(''Physics'', \<lparr>entities = {}\<rparr>)]\<rparr>
     ''Physics'' = Inr \<lparr>entities = {}\<rparr> \<and>
   SystemManager_getSystem
     (SystemManager_entitySignatureChanged
        \<lparr>sm_signatures = [''Physics'' \<mapsto> 1], systems = [(''Physics'', \<lparr>entities = {}\<rparr>)]\<rparr> 5 3)
     ''Physics'' = Inr \<lparr>entities = {5}\<rparr> \<and>
   (3 :: Signature) AND 1 = 1 \<and> (3 :: Signature) \<noteq> 1 \<and>
   SystemManager_getSystem
     (SystemManager_entitySignatureChanged
        \<lparr>sm_signatures = [''Physics'' \<mapsto> 1], systems = [(''Physics'', \<lparr>entities = {}\<rparr>)]\<rparr> 5 2)
     ''Physics'' = Inr \<lparr>entities = {}\<rparr>"
proof -
  let ?sm = "\<lparr>sm_signatures = [''Physics'' \<mapsto> 1 :: Signature],
              systems = [(''Physics'', \<lparr>entities = {}\<rparr>)]\<rparr>"
  have registered: "SystemManager_getSystem ?sm ''Physics'' = Inr \<lparr>entities = {}\<rparr>"
    by (simp add: SystemManager_getSystem_def)
  have required: "required_signature ?sm ''Physics'' = 1"
    by (simp add: required_signature_def umap_index_def)
  have bits: "(3 :: Signature) AND 1 = 1" "(2 :: Signature) AND 1 = 0"
    by simp_all
  show ?thesis
    using signature_change_decides_membership [OF registered, of 5 3]
      signature_change_decides_membership [OF registered, of 5 2]
      registered
    by (simp add: required bits)
qed

text \<open>
  Claim C10. Let \<open>S\<close> be a registered system type for which no call of a run on a fresh
  system manager was \<open>setSignature\<close> (\<open>list_ex\<close> finds none). Then \<open>entitySignatureChanged e s\<close> inserts \<open>e\<close> into
  the entity set of \<open>S\<close>, whatever \<open>s\<close> is.
\<close>

theorem undeclared_system_takes_every_entity:
  assumes "\<not> list_ex (sets_signature_of S) ops"
    and "SystemManager_getSystem (sm_run SystemManager_init ops) S = Inr system"
  shows "SystemManager_getSystem
           (SystemManager_entitySignatureChanged (sm_run SystemManager_init ops) e s) S =
         Inr (system\<lparr>entities := insert e (entities system)\<rparr>)"
proof -
  from assms(1) have "\<forall>op \<in> set ops. \<not> sets_signature_of S op"
    by (simp add: list_ex_iff)
  then have "required_signature (sm_run SystemManager_init ops) S = 0"
    by (simp add: run_required_signature required_signature_init)
  then show ?thesis
    using assms(2) by (simp add: getSystem_after_change)
qed

theorem undeclared_system_takes_every_entity_witness:
  "\<not> list_ex (sets_signature_of ''Render'')
       [SmRegisterSystem ''Render'', SmRegisterSystem ''Physics'',
        SmSetSignature ''Physics'' 1] \<and>
   SystemManager_getSystem
     (sm_run SystemManager_init
        [SmRegisterSystem ''Render'', SmRegisterSystem ''Physics'', SmSetSignature ''Physics'' 1])
     ''Render'' = Inr \<lparr>entities = {}\<rparr> \<and>
   SystemManager_getSystem
     (SystemManager_entitySignatureChanged
        (sm_run SystemManager_init
           [SmRegisterSystem ''Render'', SmRegisterSystem ''Physics'',
            SmSetSignature ''Physics'' 1]) 7 0)
     ''Render'' = Inr \<lparr>entities = {7}\<rparr>"
proof -
  let ?ops = "[SmRegisterSystem ''Render'', SmRegisterSystem ''Physics'',
               SmSetSignature ''Physics'' 1]"
  have undeclared: "\<not> list_ex (sets_signature_of ''Render'') ?ops"
    by simp
  have registered:
    "SystemManager_getSystem (sm_run SystemManager_init ?ops) ''Render'' = Inr \<lparr>entities = {}\<rparr>"
    by (simp add: sm_run_def SystemManager_init_def SystemManager_registerSystem_def
        SystemManager_setSignature_def SystemManager_getSystem_def alist_insert_def)
  show ?thesis
    using undeclared_system_takes_every_entity [OF undeclared registered, of 7 0]
      undeclared registered
    by simp
qed

text \<open>
  Claim C8, as the code has it. After \<open>setSignature T s1\<close>, no later call, and in
  particular no later \<open>setSignature T s2\<close>, changes the entry of \<open>T\<close> in the signature map.
  That entry is \<open>s1\<close> if the map had no entry for \<open>T\<close> when \<open>s1\<close> was declared; if it had one
  (an earlier declaration, or the empty signature that \<open>entitySignatureChanged\<close> inserts for
  a registered system), the entry stays what it was and \<open>s1\<close> is ignored as well.
\<close>

theorem later_setSignature_changes_nothing:
  "sm_signatures
     (sm_run (SystemManager_setSignature sm T s1) (ops @ [SmSetSignature T s2])) T =
     sm_signatures (SystemManager_setSignature sm T s1) T \<and>
   sm_signatures (SystemManager_setSignature sm T s1) T =
     Some (case sm_signatures sm T of None \<Rightarrow> s1 | Some s0 \<Rightarrow> s0)"
  by (simp add: run_entry_kept [OF setSignature_entry] setSignature_entry)

theorem later_setSignature_changes_nothing_witness:
  "sm_signatures (SystemManager_init :: string SystemManager) ''Physics'' = None \<and>
   sm_signatures
     (sm_run (SystemManager_setSignature SystemManager_init ''Physics'' 1)
        ([SmRegisterSystem ''Physics'', SmEntitySignatureChanged 0 3] @
         [SmSetSignature ''Physics'' 2]))
     ''Physics'' = Some 1"
proof -
  have fresh: "sm_signatures (SystemManager_init :: string SystemManager) ''Physics'' = None"
    by (simp add: SystemManager_init_def)
  show ?thesis
    using later_setSignature_changes_nothing
      [of SystemManager_init "''Physics''" 1 "[SmRegisterSystem ''Physics'', SmEntitySignatureChanged 0 3]" 2]
    by (simp only: fresh option.case simp_thms)
qed

text \<open>
  The case that claim C8 leaves out: a system is registered, a signature change of some
  entity makes \<open>entitySignatureChanged\<close> insert the empty signature for it, and then
  \<open>setSignature 1\<close> and \<open>setSignature 2\<close> are called. The required signature is the empty
  one after both calls, not the \<open>1\<close> of the first declaration.
\<close>

theorem setSignature_after_default_insertion_is_ignored:
  "sm_signatures
     (sm_run SystemManager_init
        [SmRegisterSystem ''Physics'', SmEntitySignatureChanged 0 0,
         SmSetSignature ''Physics'' 1, SmSetSignature ''Physics'' 2])
     ''Physics'' = Some 0 \<and>
   sm_signatures
     (sm_run SystemManager_init
        [SmRegisterSystem ''Physics'', SmEntitySignatureChanged 0 0,
         SmSetSignature ''Physics'' 1, SmSetSignature ''Physics'' 2])
     ''Physics'' \<noteq> Some 1"
  by (simp add: sm_run_def SystemManager_init_def SystemManager_registerSystem_def
      SystemManager_entitySignatureChanged_def SystemManager_setSignature_def
      alist_insert_def umap_index_def umap_insert_def)

section \<open>The component manager: type identifiers\<close>

text \<open>What a call does to the type map and to the identifier counter.\<close>

lemma cm_step_types:
  assumes "cm_step cm op = Inr cm'"
  shows "componentTypes cm' =
     (case op of
        CmRegisterComponent t \<Rightarrow> umap_insert t (nextComponentType cm) (componentTypes cm)
      | CmGetComponentTypeID t \<Rightarrow> snd (umap_index (componentTypes cm) t)
      | _ \<Rightarrow> componentTypes cm)"
    and "nextComponentType cm' =
     (case op of
        CmRegisterComponent t \<Rightarrow> nextComponentType cm + 1
      | _ \<Rightarrow> nextComponentType cm)"
  using assms
  by (auto simp: cm_step_def ComponentManager_registerComponent_def
      ComponentManager_getComponentTypeID_def ComponentManager_addComponent_def
      ComponentManager_removeComponent_def ComponentManager_entityDestroyed_def
      split_beta split: cm_op.splits option.splits)

lemma cm_step_entry_kept:
  assumes "cm_step cm op = Inr cm'" and "componentTypes cm t = Some v"
  shows "componentTypes cm' t = Some v"
  using assms(2) unfolding cm_step_types(1) [OF assms(1)]
  by (auto simp: umap_insert_def umap_index_def split: cm_op.splits option.splits)

lemma cm_run_entry_kept:
  "cm_run cm ops = Inr cm' \<Longrightarrow> componentTypes cm t = Some v \<Longrightarrow> componentTypes cm' t = Some v"
proof (induction ops arbitrary: cm)
  case Nil
  then show ?case by simp
next
  case (Cons op ops)
  from Cons.prems(1) obtain cm1 where step: "cm_step cm op = Inr cm1"
    and run: "cm_run cm1 ops = Inr cm'"
    by (auto split: sum.splits)
  show ?case
    using Cons.IH [OF run] cm_step_entry_kept [OF step Cons.prems(2)] .
qed

text \<open>A type that is never registered has no entry, or the entry 0 of a lookup.\<close>

lemma cm_run_unregistered:
  "cm_run cm ops = Inr cm' \<Longrightarrow> CmRegisterComponent T \<notin> set ops \<Longrightarrow>
   componentTypes cm T = None \<or> componentTypes cm T = Some 0 \<Longrightarrow>
   componentTypes cm' T = None \<or> componentTypes cm' T = Some 0"
proof (induction ops arbitrary: cm)
  case Nil
  then show ?case by simp
next
  case (Cons op ops)
  from Cons.prems(1) obtain cm1 where step: "cm_step cm op = Inr cm1"
    and run: "cm_run cm1 ops = Inr cm'"
    by (auto split: sum.splits)
  from Cons.prems(2) have op: "op \<noteq> CmRegisterComponent T"
    and rest: "CmRegisterComponent T \<notin> set ops"
    by auto
  have "componentTypes cm1 T = None \<or> componentTypes cm1 T = Some 0"
    using Cons.prems(3) op unfolding cm_step_types(1) [OF step]
    by (auto simp: umap_insert_def umap_index_def split: cm_op.splits option.splits)
  then show ?case
    using Cons.IH [OF run rest] by blast
qed

text \<open>
  Until the first registration the counter is 0 and every entry is 0, so the first
  registered type gets (or already has) the identifier 0, and keeps it.
\<close>

lemma cm_run_first_registered:
  "cm_run cm ops = Inr cm' \<Longrightarrow> first_registered ops = Some T0 \<Longrightarrow>
   nextComponentType cm = 0 \<Longrightarrow> \<forall>t v. componentTypes cm t = Some v \<longrightarrow> v = 0 \<Longrightarrow>
   componentTypes cm' T0 = Some 0"
proof (induction ops arbitrary: cm)
  case Nil
  then show ?case by simp
next
  case (Cons op ops)
  from Cons.prems(1) obtain cm1 where step: "cm_step cm op = Inr cm1"
    and run: "cm_run cm1 ops = Inr cm'"
    by (auto split: sum.splits)
  show ?case
  proof (cases "is_register op")
    case True
    then have op: "op = CmRegisterComponent T0"
      using Cons.prems(2) by (cases op) simp_all
    have "componentTypes cm1 T0 = Some 0"
      using Cons.prems(3,4) unfolding cm_step_types(1) [OF step] op
      by (auto simp: umap_insert_def split: option.splits)
    then show ?thesis
      using cm_run_entry_kept [OF run] by blast
  next
    case False
    then have first: "first_registered ops = Some T0"
      using Cons.prems(2) by (cases op) simp_all
    have "nextComponentType cm1 = 0"
      using Cons.prems(3) False unfolding cm_step_types(2) [OF step]
      by (cases op) simp_all
    moreover have "\<forall>t v. componentTypes cm1 t = Some v \<longrightarrow> v = 0"
      using Cons.prems(4) False unfolding cm_step_types(1) [OF step]
      by (cases op) (auto simp: umap_index_def split: option.splits if_splits)
    ultimately show ?thesis
      using Cons.IH [OF run first] by blast
  qed
qed

section \<open>Claims about the component manager\<close>

text \<open>
  Claim C2, as the code has it. If the component type \<open>T\<close> has the identifier \<open>i\<close>, a further
  \<open>registerComponent T\<close> leaves the type map as it is (the insertion does not replace an
  existing entry), so \<open>getComponentTypeID T\<close> still returns \<open>i\<close>; only the counter of the
  next identifier advances by one.
\<close>

theorem second_registration_keeps_identifier:
  assumes "componentTypes cm T = Some i"
  shows "fst (ComponentManager_getComponentTypeID (ComponentManager_registerComponent cm T) T) = i \<and>
         componentTypes (ComponentManager_registerComponent cm T) = componentTypes cm \<and>
         nextComponentType (ComponentManager_registerComponent cm T) = nextComponentType cm + 1"
  using assms
  by (simp add: ComponentManager_getComponentTypeID_def ComponentManager_registerComponent_def
      umap_insert_def umap_index_def)

theorem second_registration_keeps_identifier_witness:
  "componentTypes
     \<lparr>componentTypes = [''Position'' \<mapsto> 0, ''Velocity'' \<mapsto> 1],
      ComponentStorages = [(''Position'', Map.empty), (''Velocity'', Map.empty :: nat ComponentStorage)],
      nextComponentType = 2\<rparr> ''Velocity'' = Some 1 \<and>
   fst (ComponentManager_getComponentTypeID
          (ComponentManager_registerComponent
             \<lparr>componentTypes = [''Position'' \<mapsto> 0, ''Velocity'' \<mapsto> 1],
              ComponentStorages =
                [(''Position'', Map.empty), (''Velocity'', Map.empty :: nat ComponentStorage)],
              nextComponentType = 2\<rparr> ''Velocity'')
          ''Velocity'') = 1 \<and>
   nextComponentType
     (ComponentManager_registerComponent
        \<lparr>componentTypes = [''Position'' \<mapsto> 0, ''Velocity'' \<mapsto> 1],
         ComponentStorages =
           [(''Position'', Map.empty), (''Velocity'', Map.empty :: nat ComponentStorage)],
         nextComponentType = 2\<rparr> ''Velocity'') = 3"
proof -
  let ?cm = "\<lparr>componentTypes = [''Position'' \<mapsto> 0, ''Velocity'' \<mapsto> 1 :: ComponentTypeID],
              ComponentStorages =
                [(''Position'', Map.empty), (''Velocity'', Map.empty :: nat ComponentStorage)],
              nextComponentType = 2\<rparr>"
  have registered: "componentTypes ?cm ''Velocity'' = Some 1"
    by simp
  show ?thesis
    using second_registration_keeps_identifier [OF registered] registered
    by simp
qed

text \<open>
  Claim C2 at the first type of a fresh manager: the identifier is 0 after the first
  registration and still 0 after the second one.
\<close>

theorem second_registration_reassigns_nothing:
  "fst (ComponentManager_getComponentTypeID
          (ComponentManager_registerComponent
             (ComponentManager_init :: (string, nat) ComponentManager) ''Position'')
          ''Position'') = 0 \<and>
   fst (ComponentManager_getComponentTypeID
          (ComponentManager_registerComponent
             (ComponentManager_registerComponent
                (ComponentManager_init :: (string, nat) ComponentManager) ''Position'')
             ''Position'')
          ''Position'') = 0"
  by (simp add: ComponentManager_getComponentTypeID_def ComponentManager_registerComponent_def
      ComponentManager_init_def umap_insert_def umap_index_def)

text \<open>
  Claim C7. After any run on a fresh component manager in which \<open>registerComponent T\<close> was
  never called, \<open>getComponentTypeID T\<close> returns 0 (it cannot fail: it has no error to
  return) and leaves the entry \<open>T \<mapsto> 0\<close> in the type map. The first type that the run
  registered, if there is one, has the identifier 0 as well.
\<close>

theorem unregistered_type_reads_identifier_zero:
  assumes "cm_run ComponentManager_init ops = Inr cm" and "CmRegisterComponent T \<notin> set ops"
  shows "fst (ComponentManager_getComponentTypeID cm T) = 0 \<and>
         componentTypes (snd (ComponentManager_getComponentTypeID cm T)) T = Some 0 \<and>
         (first_registered ops = Some T0 \<longrightarrow>
            fst (ComponentManager_getComponentTypeID cm T0) = 0)"
proof -
  have "componentTypes cm T = None \<or> componentTypes cm T = Some 0"
    using cm_run_unregistered [OF assms] by (simp add: ComponentManager_init_def)
  then have "fst (ComponentManager_getComponentTypeID cm T) = 0"
    and "componentTypes (snd (ComponentManager_getComponentTypeID cm T)) T = Some 0"
    by (auto simp: ComponentManager_getComponentTypeID_def umap_index_def split_beta)
  moreover have "fst (ComponentManager_getComponentTypeID cm T0) = 0"
    if "first_registered ops = Some T0"
    using cm_run_first_registered [OF assms(1) that]
    by (simp add: ComponentManager_init_def ComponentManager_getComponentTypeID_def
        umap_index_def split_beta)
  ultimately show ?thesis
    by blast
qed

theorem unregistered_type_reads_identifier_zero_witness:
  "cm_run ComponentManager_init
     [CmRegisterComponent ''Position'', CmRegisterComponent ''Render'',
      CmAddComponent ''Render'' 0 (4 :: nat)] =
     Inr \<lparr>componentTypes = [''Position'' \<mapsto> 0, ''Render'' \<mapsto> 1],
          ComponentStorages = [(''Position'', Map.empty), (''Render'', [0 \<mapsto> 4])],
          nextComponentType = 2\<rparr> \<and>
   CmRegisterComponent ''Velocity'' \<notin>
     set [CmRegisterComponent ''Position'', CmRegisterComponent ''Render'',
          CmAddComponent ''Render'' 0 (4 :: nat)] \<and>
   first_registered
     [CmRegisterComponent ''Position'', CmRegisterComponent ''Render'',
      CmAddComponent ''Render'' 0 (4 :: nat)] = Some ''Position'' \<and>
   fst (ComponentManager_getComponentTypeID
          \<lparr>componentTypes = [''Position'' \<mapsto> 0, ''Render'' \<mapsto> 1],
           ComponentStorages = [(''Position'', Map.empty), (''Render'', [0 \<mapsto> 4 :: nat])],
           nextComponentType = 2\<rparr> ''Velocity'') = 0 \<and>
   fst (ComponentManager_getComponentTypeID
          \<lparr>componentTypes = [''Position'' \<mapsto> 0, ''Render'' \<mapsto> 1],
           ComponentStorages = [(''Position'', Map.empty), (''Render'', [0 \<mapsto> 4 :: nat])],
           nextComponentType = 2\<rparr> ''Position'') = 0"
proof -
  let ?ops = "[CmRegisterComponent ''Position'', CmRegisterComponent ''Render'',
               CmAddComponent ''Render'' 0 (4 :: nat)]"
  let ?cm = "\<lparr>componentTypes = [''Position'' \<mapsto> 0, ''Render'' \<mapsto> 1 :: ComponentTypeID],
              ComponentStorages = [(''Position'', Map.empty), (''Render'', [0 \<mapsto> 4 :: nat])],
              nextComponentType = 2\<rparr>"
  have run: "cm_run ComponentManager_init ?ops = Inr ?cm"
    by (simp add: cm_step_def ComponentManager_init_def ComponentManager_registerComponent_def
        ComponentManager_addComponent_def ComponentStorage_insertData_def
        umap_insert_def alist_insert_def)
  have never: "CmRegisterComponent ''Velocity'' \<notin> set ?ops"
    by simp
  have first: "first_registered ?ops = Some ''Position''"
    by simp
  show ?thesis
    using unregistered_type_reads_identifier_zero [OF run never, of "''Position''"]
      run never first
    by simp
qed

section \<open>The coordinator: what a successful \<open>addComponent\<close> has done\<close>

lemma addComponent_result:
  assumes "Coordinator_addComponent N c T e v = Inr c'"
  shows "e < N"
    and "fst (umap_index (componentTypes (componentManager c)) T) < MAX_COMPONENTS"
    and "\<exists>storage. map_of (ComponentStorages (componentManager c)) T = Some storage \<and>
           ComponentStorages (componentManager c') =
             AList.update T (ComponentStorage_insertData storage e v)
               (ComponentStorages (componentManager c))"
    and "entityManager c' =
           (entityManager c)\<lparr>em_signatures :=
              (em_signatures (entityManager c))(e := new_signature c T e)\<rparr>"
    and "systemManager c' =
           SystemManager_entitySignatureChanged (systemManager c) e (new_signature c T e)"
  using assms
  by (auto simp: Coordinator_addComponent_def ComponentManager_addComponent_def
      EntityManager_getSignature_def EntityManager_setSignature_def
      ComponentManager_getComponentTypeID_def bitset_set_def split_beta new_signature_def
      split: sum.splits option.splits if_splits)

lemma getComponent_holds:
  assumes "Coordinator_getComponent c T e = Inr v"
  obtains storage where "map_of (ComponentStorages (componentManager c)) T = Some storage"
    and "storage e = Some v"
  using assms
  by (auto simp: Coordinator_getComponent_def ComponentManager_getComponent_def
      ComponentStorage_getData_def split: option.splits)

lemma addComponent_keeps_value:
  assumes holds: "Coordinator_getComponent c T e = Inr v1"
    and add: "Coordinator_addComponent N c T e v2 = Inr c'"
  shows "Coordinator_getComponent c' T e = Inr v1"
proof -
  from holds obtain storage where
    st: "map_of (ComponentStorages (componentManager c)) T = Some storage" and
    v1: "storage e = Some v1"
    by (rule getComponent_holds)
  from addComponent_result(3) [OF add] st
  have "ComponentStorages (componentManager c') =
       AList.update T (ComponentStorage_insertData storage e v2)
         (ComponentStorages (componentManager c))"
    by auto
  moreover have "ComponentStorage_insertData storage e v2 = storage"
    using v1 by (simp add: ComponentStorage_insertData_def umap_insert_def)
  ultimately show ?thesis
    using v1
    by (simp add: Coordinator_getComponent_def ComponentManager_getComponent_def
        ComponentStorage_getData_def update_conv')
qed

text \<open>The round trip holds for an entity that has no component of the type yet.\<close>

lemma addComponent_then_getComponent_fresh:
  assumes fresh: "Coordinator_getComponent c T e = Inl OutOfRange"
    and add: "Coordinator_addComponent N c T e v = Inr c'"
  shows "Coordinator_getComponent c' T e = Inr v"
proof -
  from addComponent_result(3) [OF add] obtain storage where
    st: "map_of (ComponentStorages (componentManager c)) T = Some storage" and
    upd: "ComponentStorages (componentManager c') =
       AList.update T (ComponentStorage_insertData storage e v)
         (ComponentStorages (componentManager c))"
    by blast
  from fresh st have "storage e = None"
    by (auto simp: Coordinator_getComponent_def ComponentManager_getComponent_def
        ComponentStorage_getData_def split: option.splits)
  then show ?thesis
    by (simp add: upd Coordinator_getComponent_def ComponentManager_getComponent_def
        ComponentStorage_getData_def update_conv' ComponentStorage_insertData_def
        umap_insert_def)
qed

lemma addComponent_keeps_signature:
  assumes has: "map_sum id fst (Coordinator_hasComponent N c T e) = Inr True"
    and add: "Coordinator_addComponent N c T e v2 = Inr c'"
  shows "Coordinator_getEntitySignature N c' e = Coordinator_getEntitySignature N c e"
proof -
  note range = addComponent_result(1) [OF add] and em = addComponent_result(4) [OF add]
  from has range
  have "bit (em_signatures (entityManager c) e)
          (unat (fst (umap_index (componentTypes (componentManager c)) T)))"
    by (auto simp: Coordinator_hasComponent_def EntityManager_getSignature_def
        ComponentManager_getComponentTypeID_def bitset_test_def split_beta
        split: sum.splits if_splits)
  then have "new_signature c T e = em_signatures (entityManager c) e"
    by (simp add: new_signature_def set_bit_eq_idem_iff)
  then show ?thesis
    using range
    by (simp add: em Coordinator_getEntitySignature_def EntityManager_getSignature_def)
qed

lemma addComponent_memberships:
  assumes add: "Coordinator_addComponent N c T e v2 = Inr c'"
    and sys: "Coordinator_getSystem c S = Inr system"
  shows "\<exists>signature. Coordinator_getEntitySignature N c' e = Inr signature \<and>
           Coordinator_getSystem c' S =
             Inr (if signature AND required_signature (systemManager c) S =
                       required_signature (systemManager c) S
                  then system\<lparr>entities := insert e (entities system)\<rparr>
                  else system\<lparr>entities := entities system - {e}\<rparr>)"
proof -
  note range = addComponent_result(1) [OF add] and em = addComponent_result(4) [OF add]
    and sm = addComponent_result(5) [OF add]
  show ?thesis
    using range sys
    by (simp add: em sm Coordinator_getEntitySignature_def EntityManager_getSignature_def
        Coordinator_getSystem_def getSystem_after_change)
qed

section \<open>The example world\<close>

lemma fill_available_2: "fill_available 0 2 [] = [0, 1]"
  by code_simp

lemma example_world_reached:
  "co_run 2 (Coordinator_init 2) example_ops = Inr example_world"
  by (simp add: example_ops_def example_world_def co_step_def Coordinator_init_def
     Coordinator_registerComponent_def Coordinator_registerSystem_def Coordinator_createEntity_def
     Coordinator_addComponent_def ComponentManager_init_def SystemManager_init_def
     EntityManager_init_def fill_available_2 ComponentManager_registerComponent_def
     SystemManager_registerSystem_def EntityManager_createEntity_def
     ComponentManager_addComponent_def EntityManager_getSignature_def EntityManager_setSignature_def
     ComponentManager_getComponentTypeID_def bitset_set_def MAX_COMPONENTS_def
     SystemManager_entitySignatureChanged_def umap_insert_def umap_index_def alist_insert_def
     ComponentStorage_insertData_def)

lemma example_world_destroy:
  "Coordinator_destroyEntity 2 example_world 0 = Inr example_world_destroyed"
  by (simp add: example_world_def example_world_destroyed_def Coordinator_destroyEntity_def
      EntityManager_destroyEntity_def ComponentManager_entityDestroyed_def
      SystemManager_entityDestroyed_def ComponentStorage_entityDestroyed_def fun_upd_idem_iff)

lemma example_world_add_again:
  "Coordinator_addComponent 2 example_world ''Position'' 0 2 = Inr example_world"
  by (simp add: example_world_def Coordinator_addComponent_def
      ComponentManager_addComponent_def EntityManager_getSignature_def EntityManager_setSignature_def
      ComponentManager_getComponentTypeID_def bitset_set_def MAX_COMPONENTS_def
      SystemManager_entitySignatureChanged_def umap_insert_def umap_index_def
      ComponentStorage_insertData_def fun_upd_idem_iff set_bit_0)

lemma example_world_queries:
  "Coordinator_entityExists 2 example_world 0"
  "Coordinator_getComponent example_world ''Position'' 0 = Inr 1"
  "map_sum id fst (Coordinator_hasComponent 2 example_world ''Position'' 0) = Inr True"
  "Coordinator_getSystem example_world ''Physics'' = Inr \<lparr>entities = {0}\<rparr>"
  "required_signature (systemManager example_world) ''Physics'' = 0"
  "Coordinator_getEntitySignature 2 example_world 0 = Inr 1"
  by (simp_all add: example_world_def Coordinator_getComponent_def ComponentManager_getComponent_def
      ComponentStorage_getData_def Coordinator_hasComponent_def EntityManager_getSignature_def
      ComponentManager_getComponentTypeID_def umap_index_def bitset_test_def MAX_COMPONENTS_def
      Coordinator_getSystem_def SystemManager_getSystem_def required_signature_def
      Coordinator_getEntitySignature_def Coordinator_entityExists_def
      EntityManager_entityExists_def)

section \<open>Claims about the coordinator\<close>

text \<open>
  Claim C4. When \<open>destroyEntity e\<close> of the coordinator returns, \<open>entityExists e\<close> is
  false, \<open>getEntitySignature e\<close> is the empty signature, no component storage has data for
  \<open>e\<close>, and no registered system has \<open>e\<close> in its entity set.
\<close>

theorem destroyEntity_leaves_no_trace:
  assumes "Coordinator_destroyEntity N c e = Inr c'"
  shows "\<not> Coordinator_entityExists N c' e \<and>
         Coordinator_getEntitySignature N c' e = Inr 0 \<and>
         (\<forall>(t, storage) \<in> set (ComponentStorages (componentManager c')).
            \<not> ComponentStorage_hasData storage e) \<and>
         (\<forall>(t, system) \<in> set (systems (systemManager c')). e \<notin> entities system)"
proof -
  from assms obtain em' where
    em': "EntityManager_destroyEntity N (entityManager c) e = Inr em'" and
    c': "c' = c\<lparr>entityManager := em',
              componentManager := ComponentManager_entityDestroyed (componentManager c) e,
              systemManager := SystemManager_entityDestroyed (systemManager c) e\<rparr>"
    by (auto simp: Coordinator_destroyEntity_def split: sum.splits)
  from em' have range: "e < N" and empty: "em_signatures em' e = 0"
    by (auto simp: EntityManager_destroyEntity_def split: if_splits)
  have "\<not> Coordinator_entityExists N c' e"
    using empty by (simp add: c' Coordinator_entityExists_def EntityManager_entityExists_def)
  moreover have "Coordinator_getEntitySignature N c' e = Inr 0"
    using range empty
    by (simp add: c' Coordinator_getEntitySignature_def EntityManager_getSignature_def)
  moreover have "\<forall>(t, storage) \<in> set (ComponentStorages (componentManager c')).
            \<not> ComponentStorage_hasData storage e"
    by (auto simp: c' ComponentManager_entityDestroyed_def ComponentStorage_entityDestroyed_def
        ComponentStorage_hasData_def)
  moreover have "\<forall>(t, system) \<in> set (systems (systemManager c')). e \<notin> entities system"
    by (auto simp: c' SystemManager_entityDestroyed_def)
  ultimately show ?thesis
    by blast
qed

theorem destroyEntity_leaves_no_trace_witness:
  "Coordinator_entityExists 2 example_world 0 \<and>
   Coordinator_getComponent example_world ''Position'' 0 = Inr 1 \<and>
   Coordinator_getSystem example_world ''Physics'' = Inr \<lparr>entities = {0}\<rparr> \<and>
   Coordinator_destroyEntity 2 example_world 0 = Inr example_world_destroyed \<and>
   \<not> Coordinator_entityExists 2 example_world_destroyed 0 \<and>
   Coordinator_getEntitySignature 2 example_world_destroyed 0 = Inr 0 \<and>
   list_all (\<lambda>(t, storage). \<not> ComponentStorage_hasData storage 0)
     (ComponentStorages (componentManager example_world_destroyed)) \<and>
   list_all (\<lambda>(t, system). 0 \<notin> entities system)
     (systems (systemManager example_world_destroyed))"
  using destroyEntity_leaves_no_trace [OF example_world_destroy]
    example_world_destroy example_world_queries(1,2,4)
  by (simp add: list_all_iff)

text \<open>
  Claim C6 at an entity that already has a component of the type: \<open>Position\<close> is
  registered, entity 0 is created and given the value 1, then \<open>addComponent\<close> is called with
  the value 2. \<open>getComponent\<close> returns 1: \<open>insertData\<close> (documented as ``Inserts or updates'')
  calls \<^verbatim>\<open>emplace\<close>, which leaves an existing entry as it is.
\<close>

theorem second_addComponent_is_not_read_back:
  "co_run_then_getComponent 2
     [CoRegisterComponent ''Position'', CoCreateEntity,
      CoAddComponent ''Position'' 0 (1 :: nat), CoAddComponent ''Position'' 0 2]
     ''Position'' 0 = Inr 1"
  by code_simp

text \<open>
  Claim C9, as the code has it. Let \<open>e\<close> hold the value \<open>v1\<close> for the type \<open>T\<close>, and let
  \<open>addComponent T e v2\<close> return. Then \<open>getComponent T e\<close> is still \<open>v1\<close>. If the bit of \<open>T\<close>
  was set in the signature of \<open>e\<close> (\<open>hasComponent\<close> was true), the signature of \<open>e\<close> is
  unchanged. Every registered system has its membership of \<open>e\<close> decided anew from that
  signature: \<open>e\<close> is inserted if the signature has all required bits of the system and
  erased otherwise, whatever the membership was before.
\<close>

theorem addComponent_on_held_component:
  assumes "Coordinator_getComponent c T e = Inr v1"
    and "Coordinator_addComponent N c T e v2 = Inr c'"
  shows "Coordinator_getComponent c' T e = Inr v1 \<and>
         (map_sum id fst (Coordinator_hasComponent N c T e) = Inr True \<longrightarrow>
            Coordinator_getEntitySignature N c' e = Coordinator_getEntitySignature N c e) \<and>
         (\<forall>S system. Coordinator_getSystem c S = Inr system \<longrightarrow>
            (\<exists>signature. Coordinator_getEntitySignature N c' e = Inr signature \<and>
               Coordinator_getSystem c' S =
                 Inr (if signature AND required_signature (systemManager c) S =
                           required_signature (systemManager c) S
                      then system\<lparr>entities := insert e (entities system)\<rparr>
                      else system\<lparr>entities := entities system - {e}\<rparr>)))"
  using addComponent_keeps_value [OF assms] addComponent_keeps_signature [OF _ assms(2)]
    addComponent_memberships [OF assms(2)]
  by blast

theorem addComponent_on_held_component_witness:
  "Coordinator_getComponent example_world ''Position'' 0 = Inr 1 \<and>
   Coordinator_addComponent 2 example_world ''Position'' 0 2 = Inr example_world \<and>
   map_sum id fst (Coordinator_hasComponent 2 example_world ''Position'' 0) = Inr True \<and>
   Coordinator_getSystem example_world ''Physics'' = Inr \<lparr>entities = {0}\<rparr> \<and>
   Coordinator_getEntitySignature 2 example_world 0 = Inr 1 \<and>
   (1 :: Signature) AND required_signature (systemManager example_world) ''Physics'' =
     required_signature (systemManager example_world) ''Physics''"
  using addComponent_on_held_component
      [OF example_world_queries(2) example_world_add_again]
    example_world_queries example_world_add_again
  by simp

text \<open>
  Claim C9 where a system is registered after the entity received its component: entity 0
  holds a \<open>Position\<close> of value 1 and is not in the entity set of \<open>Physics\<close>; after a second
  \<open>addComponent\<close> for \<open>Position\<close> it is.
\<close>

theorem repeated_addComponent_changes_membership:
  "co_run_then_getComponent 2
     [CoRegisterComponent ''Position'', CoCreateEntity,
      CoAddComponent ''Position'' 0 (1 :: nat), CoRegisterSystem ''Physics'']
     ''Position'' 0 = Inr 1 \<and>
   co_run_then_getSystem 2
     [CoRegisterComponent ''Position'', CoCreateEntity,
      CoAddComponent ''Position'' 0 (1 :: nat), CoRegisterSystem ''Physics'']
     ''Physics'' = Inr \<lparr>entities = {}\<rparr> \<and>
   co_run_then_getSystem 2
     [CoRegisterComponent ''Position'', CoCreateEntity,
      CoAddComponent ''Position'' 0 (1 :: nat), CoRegisterSystem ''Physics'',
      CoAddComponent ''Position'' 0 2]
     ''Physics'' = Inr \<lparr>entities = {0}\<rparr>"
  by code_simp

end
